theory Spec2Isabelle
  imports Complex_Main "HOL-Library.Multiset" "HOL-Library.Product_Lexorder" "HOL-Library.Sublist"
begin

section \<open>JavaScript values\<close>

text \<open>
  A JavaScript string is a sequence of UTF-16 code units, each a natural number below
  \<open>65536\<close> (no operation below leaves that range). A JavaScript number is
  modelled as a real or \<open>NaN\<close>: the arithmetic of the clustering engine is read over the
  reals, and the only non-finite value it can produce itself is the \<open>0/0\<close> of
  \<open>jaccardSimilarity\<close>. Infinite option values are outside the model.
\<close>

type_synonym cu = nat
type_synonym jsstring = "cu list"

datatype jsnum = Num real | NaN

fun js_add :: "jsnum \<Rightarrow> jsnum \<Rightarrow> jsnum" where
  "js_add (Num a) (Num b) = Num (a + b)"
| "js_add _ _ = NaN"

fun js_mul :: "jsnum \<Rightarrow> jsnum \<Rightarrow> jsnum" where
  "js_mul (Num a) (Num b) = Num (a * b)"
| "js_mul _ _ = NaN"

text \<open>\<open>Math.min\<close> and \<open>Math.max\<close> return \<open>NaN\<close> as soon as one argument is \<open>NaN\<close>.\<close>

fun js_min :: "jsnum \<Rightarrow> jsnum \<Rightarrow> jsnum" where
  "js_min (Num a) (Num b) = Num (min a b)"
| "js_min _ _ = NaN"

fun js_max :: "jsnum \<Rightarrow> jsnum \<Rightarrow> jsnum" where
  "js_max (Num a) (Num b) = Num (max a b)"
| "js_max _ _ = NaN"

text \<open>Every comparison with \<open>NaN\<close> is false.\<close>

fun js_lt :: "jsnum \<Rightarrow> jsnum \<Rightarrow> bool" where
  "js_lt (Num a) (Num b) = (a < b)"
| "js_lt _ _ = False"

fun js_gt :: "jsnum \<Rightarrow> jsnum \<Rightarrow> bool" where
  "js_gt (Num a) (Num b) = (a > b)"
| "js_gt _ _ = False"

fun js_le :: "jsnum \<Rightarrow> jsnum \<Rightarrow> bool" where
  "js_le (Num a) (Num b) = (a \<le> b)"
| "js_le _ _ = False"

text \<open>\<open>x || 0\<close> on a number: \<open>NaN\<close> and \<open>0\<close> are falsy.\<close>

fun or0 :: "jsnum \<Rightarrow> real" where
  "or0 (Num a) = a"
| "or0 NaN = 0"

subsection \<open>String built-ins\<close>

text \<open>
  \<open>String.prototype.toLowerCase\<close> on the code units of Basic Latin, Latin-1 and basic
  Cyrillic, and on U+0130, whose lower case is the two code units U+0069 U+0307;
  every other code unit is left as it is (the other cased scripts are outside the model).
\<close>

definition lower_cu :: "cu \<Rightarrow> jsstring" where
  "lower_cu c =
     (if 0x41 \<le> c \<and> c \<le> 0x5A then [c + 0x20]
      else if 0xC0 \<le> c \<and> c \<le> 0xDE \<and> c \<noteq> 0xD7 then [c + 0x20]
      else if c = 0x130 then [0x69, 0x307]
      else if 0x410 \<le> c \<and> c \<le> 0x42F then [c + 0x20]
      else if 0x400 \<le> c \<and> c \<le> 0x40F then [c + 0x50]
      else [c])"

definition toLowerCase :: "jsstring \<Rightarrow> jsstring" where
  "toLowerCase s = concat (map lower_cu s)"

text \<open>The class \<open>\s\<close> of a regular expression, which is also what \<open>trim\<close> removes.\<close>

definition isWhiteSpace :: "cu \<Rightarrow> bool" where
  "isWhiteSpace c \<longleftrightarrow>
     c \<in> {0x9, 0xA, 0xB, 0xC, 0xD, 0x20, 0xA0, 0x1680, 0x2028, 0x2029, 0x202F, 0x205F,
          0x3000, 0xFEFF} \<or> (0x2000 \<le> c \<and> c \<le> 0x200A)"

definition trim :: "jsstring \<Rightarrow> jsstring" where
  "trim s = rev (dropWhile isWhiteSpace (rev (dropWhile isWhiteSpace s)))"

text \<open>\<open>s.replace(/\s+/g, ' ')\<close>: every maximal run of white space becomes one space.\<close>

function collapseWs :: "jsstring \<Rightarrow> jsstring" where
  "collapseWs [] = []"
| "collapseWs (c # cs) =
     (if isWhiteSpace c then 0x20 # collapseWs (dropWhile isWhiteSpace cs)
      else c # collapseWs cs)"
  by pat_completeness auto
termination
  by (relation "measure length") (auto simp: length_dropWhile_le le_imp_less_Suc)

text \<open>
  \<open>s.split(/[...]+/)\<close> for a character class \<open>sep\<close>: the fields between the maximal
  runs of separators, with an empty field before a leading and after a trailing run.
\<close>

function splitSep :: "(cu \<Rightarrow> bool) \<Rightarrow> jsstring \<Rightarrow> jsstring list" where
  "splitSep sep s =
     (case dropWhile (\<lambda>c. \<not> sep c) s of
        [] \<Rightarrow> [s]
      | _ # rest \<Rightarrow> takeWhile (\<lambda>c. \<not> sep c) s # splitSep sep (dropWhile sep rest))"
  by pat_completeness auto
termination
proof (relation "measure (\<lambda>(sep, s). length s)")
  show "wf (measure (\<lambda>(sep, s). length s))" by simp
next
  fix sep :: "cu \<Rightarrow> bool" and s :: jsstring and x rest
  assume a: "dropWhile (\<lambda>c. \<not> sep c) s = x # rest"
  have "length (dropWhile sep rest) \<le> length rest" by (rule length_dropWhile_le)
  moreover have "length (x # rest) \<le> length s"
    unfolding a [symmetric] by (rule length_dropWhile_le)
  ultimately show "((sep, dropWhile sep rest), (sep, s)) \<in> measure (\<lambda>(sep, s). length s)"
    by simp
qed

text \<open>\<open>s.substring(a, b)\<close> for non-negative arguments: clamped to the length, swapped if \<open>a > b\<close>.\<close>

definition substring :: "jsstring \<Rightarrow> nat \<Rightarrow> nat \<Rightarrow> jsstring" where
  "substring s a b =
     (let a' = min a (length s); b' = min b (length s)
      in take (max a' b' - min a' b') (drop (min a' b') s))"

text \<open>\<open>s.substr(i, n)\<close> for non-negative arguments.\<close>

definition substr :: "jsstring \<Rightarrow> nat \<Rightarrow> nat \<Rightarrow> jsstring" where
  "substr s i n = take n (drop i s)"

definition startsWith :: "jsstring \<Rightarrow> jsstring \<Rightarrow> bool" where
  "startsWith s p \<longleftrightarrow> take (length p) s = p"

definition endsWith :: "jsstring \<Rightarrow> jsstring \<Rightarrow> bool" where
  "endsWith s p \<longleftrightarrow> length p \<le> length s \<and> drop (length s - length p) s = p"

text \<open>\<open>s.includes(p)\<close>: \<open>p\<close> occurs at some offset of \<open>s\<close>.\<close>

definition includesStr :: "jsstring \<Rightarrow> jsstring \<Rightarrow> bool" where
  "includesStr s p \<longleftrightarrow> list_ex (\<lambda>i. take (length p) (drop i s) = p) [0..<Suc (length s)]"

text \<open>The elements of \<open>new Set(xs)\<close> in insertion order.\<close>

definition setOf :: "'a list \<Rightarrow> 'a list" where
  "setOf xs = rev (remdups (rev xs))"

section \<open>N-grams and tokens\<close>

definition getNGrams :: "jsstring \<Rightarrow> nat \<Rightarrow> jsstring list" where
  "getNGrams str n =
     (let cleanStr = trim (collapseWs (toLowerCase str));
          paddedStr = [0x23] @ cleanStr @ [0x23]
      in if length paddedStr < n then []
         else setOf (map (\<lambda>i. substr paddedStr i n) [0..<Suc (length paddedStr - n)]))"

text \<open>The character class \<open>[\s\-_,;:.!?()[\]{}'"]\<close> of \<open>getWordTokens\<close>.\<close>

definition isTokenSep :: "cu \<Rightarrow> bool" where
  "isTokenSep c \<longleftrightarrow>
     isWhiteSpace c \<or>
     c \<in> {0x2D, 0x5F, 0x2C, 0x3B, 0x3A, 0x2E, 0x21, 0x3F, 0x28, 0x29, 0x5B, 0x5D, 0x7B, 0x7D,
          0x27, 0x22}"

definition getWordTokens :: "jsstring \<Rightarrow> jsstring list" where
  "getWordTokens keyword =
     filter (\<lambda>token. length token > 0) (splitSep isTokenSep (toLowerCase keyword))"

text \<open>The test for a code unit in U+4E00..U+9FFF, U+3040..U+309F, U+30A0..U+30FF or U+AC00..U+D7AF.\<close>

definition isCJK :: "jsstring \<Rightarrow> bool" where
  "isCJK s \<longleftrightarrow>
     list_ex (\<lambda>c. (0x4E00 \<le> c \<and> c \<le> 0x9FFF) \<or> (0x3040 \<le> c \<and> c \<le> 0x309F) \<or>
                  (0x30A0 \<le> c \<and> c \<le> 0x30FF) \<or> (0xAC00 \<le> c \<and> c \<le> 0xD7AF)) s"



section \<open>Similarity of two queries\<close>

text \<open>
  \<open>jaccardSimilarity\<close>: the intersection is a subset of the union, so an empty union
  divides zero by zero, which is \<open>NaN\<close>.
\<close>

definition jaccardSimilarity :: "'a list \<Rightarrow> 'a list \<Rightarrow> jsnum" where
  "jaccardSimilarity terms1 terms2 =
     (let set1 = setOf terms1;
          set2 = setOf terms2;
          intersection = setOf (filter (\<lambda>x. x \<in> set set2) set1);
          union = setOf (set1 @ set2)
      in if length union = 0 then NaN
         else Num (real (length intersection) / real (length union)))"

text \<open>The cell \<open>dp[i][j]\<close> of the table that \<open>levenshteinDistance\<close> fills.\<close>

fun dp_lev :: "jsstring \<Rightarrow> jsstring \<Rightarrow> nat \<Rightarrow> nat \<Rightarrow> nat" where
  "dp_lev str1 str2 0 j = j"
| "dp_lev str1 str2 (Suc i) 0 = Suc i"
| "dp_lev str1 str2 (Suc i) (Suc j) =
     (if str1 ! i = str2 ! j then dp_lev str1 str2 i j
      else min (dp_lev str1 str2 i (Suc j) + 1)
             (min (dp_lev str1 str2 (Suc i) j + 1) (dp_lev str1 str2 i j + 1)))"

definition levenshteinDistance :: "jsstring \<Rightarrow> jsstring \<Rightarrow> nat" where
  "levenshteinDistance str1 str2 = dp_lev str1 str2 (length str1) (length str2)"

text \<open>
  The distance is taken between the lower-cased strings, the maximal length between
  the strings as they were given.
\<close>

definition editDistanceSimilarity :: "jsstring \<Rightarrow> jsstring \<Rightarrow> real" where
  "editDistanceSimilarity str1 str2 =
     (let distance = levenshteinDistance (toLowerCase str1) (toLowerCase str2);
          maxLength = max (length str1) (length str2)
      in if maxLength = 0 then 1 else 1 - real distance / real maxLength)"

text \<open>The cell \<open>dp[i][j]\<close> of the table of \<open>findLongestCommonSubstring\<close>.\<close>

fun dp_lcs :: "jsstring \<Rightarrow> jsstring \<Rightarrow> nat \<Rightarrow> nat \<Rightarrow> nat" where
  "dp_lcs str1 str2 0 j = 0"
| "dp_lcs str1 str2 (Suc i) 0 = 0"
| "dp_lcs str1 str2 (Suc i) (Suc j) =
     (if str1 ! i = str2 ! j then dp_lcs str1 str2 i j + 1 else 0)"

text \<open>
  The two nested loops, in row order, carry \<open>(maxLength, endingPos)\<close> and replace it
  only by a strictly longer match.
\<close>

definition lcs_scan :: "jsstring \<Rightarrow> jsstring \<Rightarrow> nat \<times> nat" where
  "lcs_scan str1 str2 =
     foldl (\<lambda>(maxLength, endingPos) (i, j).
              if str1 ! (i - 1) = str2 ! (j - 1) \<and> dp_lcs str1 str2 i j > maxLength
              then (dp_lcs str1 str2 i j, i) else (maxLength, endingPos))
       (0, 0)
       (concat (map (\<lambda>i. map (\<lambda>j. (i, j)) [1..<Suc (length str2)]) [1..<Suc (length str1)]))"

definition findLongestCommonSubstring :: "jsstring \<Rightarrow> jsstring \<Rightarrow> jsstring" where
  "findLongestCommonSubstring str1 str2 =
     (case lcs_scan str1 str2 of
        (maxLength, endingPos) \<Rightarrow> substring str1 (endingPos - maxLength) endingPos)"

definition calculateAlgorithmicSimilarity :: "jsstring \<Rightarrow> jsstring \<Rightarrow> jsnum" where
  "calculateAlgorithmicSimilarity keyword1 keyword2 =
     (if toLowerCase keyword1 = toLowerCase keyword2 then Num 1
      else
        let ngramSimilarity = jaccardSimilarity (getNGrams keyword1 2) (getNGrams keyword2 2);
            trigramSimilarity = jaccardSimilarity (getNGrams keyword1 3) (getNGrams keyword2 3);
            tokens1 = getWordTokens keyword1;
            tokens2 = getWordTokens keyword2;
            tokenSimilarity =
              (if length tokens1 > 0 \<and> length tokens2 > 0
               then jaccardSimilarity tokens1 tokens2 else Num 0);
            editSimilarity = editDistanceSimilarity keyword1 keyword2;
            k1Lower = toLowerCase keyword1;
            k2Lower = toLowerCase keyword2;
            affixBonus =
              (if startsWith k1Lower k2Lower \<or> startsWith k2Lower k1Lower then 0.15 else 0) +
              (if endsWith k1Lower k2Lower \<or> endsWith k2Lower k1Lower then 0.1 else 0);
            longestCommonSubstring = findLongestCommonSubstring k1Lower k2Lower;
            substringBonus =
              (if length longestCommonSubstring \<ge> 4
               then (real (length longestCommonSubstring) /
                     real (max (length k1Lower) (length k2Lower))) * 0.2
               else 0);
            weightedSimilarity =
              js_add (js_add (js_add (js_add (js_add
                (js_mul ngramSimilarity (Num 0.25))
                (js_mul trigramSimilarity (Num 0.20)))
                (js_mul tokenSimilarity (Num 0.20)))
                (Num (editSimilarity * 0.25)))
                (Num (affixBonus * 0.05)))
                (Num (substringBonus * 0.05))
        in js_min weightedSimilarity (Num 1.0))"

definition calculateSimilarity :: "jsstring \<Rightarrow> jsstring \<Rightarrow> jsnum" where
  "calculateSimilarity keyword1 keyword2 = calculateAlgorithmicSimilarity keyword1 keyword2"

section \<open>Regular expressions\<close>

text \<open>
  The constructs of the regular expressions that the engine writes down: literals,
  character classes, \<open>c*\<close> on a class, alternation, sequence, \<open>r?\<close>, the anchors
  \<open>^\<close> and \<open>$\<close> (no \<open>m\<close> flag) and the word boundary \<open>\b\<close>.
\<close>

datatype rx =
    Lit jsstring
  | Cls "cu \<Rightarrow> bool"
  | Star "cu \<Rightarrow> bool"
  | Alt rx rx
  | Seq rx rx
  | Opt rx
  | Bol
  | Eol
  | WordB
  | Fail

definition asc :: "string \<Rightarrow> jsstring" where
  "asc s = map (\<lambda>c. of_nat (of_char c)) s"

text \<open>
  Under the flag \<open>i\<close> two code units match when they have the same case folding; on
  the code units that \<open>lower_cu\<close> covers that is having the same lower case.
\<close>

definition eqs :: "bool \<Rightarrow> jsstring \<Rightarrow> jsstring \<Rightarrow> bool" where
  "eqs ci u w = (if ci then map lower_cu u = map lower_cu w else u = w)"

definition isDigit :: "cu \<Rightarrow> bool" where
  "isDigit c \<longleftrightarrow> 0x30 \<le> c \<and> c \<le> 0x39"

text \<open>The class \<open>\w\<close>: \<open>[A-Za-z0-9_]\<close>.\<close>

definition isWordChar :: "cu \<Rightarrow> bool" where
  "isWordChar c \<longleftrightarrow>
     (0x41 \<le> c \<and> c \<le> 0x5A) \<or> (0x61 \<le> c \<and> c \<le> 0x7A) \<or> isDigit c \<or> c = 0x5F"

definition wordAt :: "jsstring \<Rightarrow> int \<Rightarrow> bool" where
  "wordAt s i \<longleftrightarrow> 0 \<le> i \<and> i < int (length s) \<and> isWordChar (s ! nat i)"

text \<open>
  \<open>rx_ends ci r s i\<close>: the offsets at which a match of \<open>r\<close> that starts at offset
  \<open>i\<close> of \<open>s\<close> can end, the preferred one first.
\<close>

fun rx_ends :: "bool \<Rightarrow> rx \<Rightarrow> jsstring \<Rightarrow> nat \<Rightarrow> nat list" where
  "rx_ends ci (Lit w) s i =
     (if i + length w \<le> length s \<and> eqs ci (take (length w) (drop i s)) w
      then [i + length w] else [])"
| "rx_ends ci (Cls P) s i = (if i < length s \<and> P (s ! i) then [Suc i] else [])"
| "rx_ends ci (Star P) s i =
     map (\<lambda>k. i + k) (rev [0..<Suc (length (takeWhile P (drop i s)))])"
| "rx_ends ci (Alt a b) s i = rx_ends ci a s i @ rx_ends ci b s i"
| "rx_ends ci (Seq a b) s i = concat (map (rx_ends ci b s) (rx_ends ci a s i))"
| "rx_ends ci (Opt a) s i = rx_ends ci a s i @ [i]"
| "rx_ends ci Bol s i = (if i = 0 then [i] else [])"
| "rx_ends ci Eol s i = (if i = length s then [i] else [])"
| "rx_ends ci WordB s i = (if wordAt s (int i - 1) \<noteq> wordAt s (int i) then [i] else [])"
| "rx_ends ci Fail s i = []"

text \<open>\<open>r.test(s)\<close> for a regular expression without the flags \<open>g\<close> and \<open>y\<close>.\<close>

definition rx_test :: "bool \<Rightarrow> rx \<Rightarrow> jsstring \<Rightarrow> bool" where
  "rx_test ci r s \<longleftrightarrow> list_ex (\<lambda>i. rx_ends ci r s i \<noteq> []) [0..<Suc (length s)]"

definition alts :: "jsstring list \<Rightarrow> rx" where
  "alts ws = foldr (\<lambda>w r. Alt (Lit w) r) ws Fail"

section \<open>Search intent\<close>

datatype Intent = Informational | Commercial | Navigational | Transactional

text \<open>A pattern with its flag \<open>i\<close>, and the configuration of one intent.\<close>

record IntentConfig =
  patterns :: "(bool \<times> rx) list"
  weight :: real

text \<open>
  \<open>INTENT_PATTERNS\<close>, in the order of its keys. Words outside ASCII are given by
  their code units. In the price pattern the \<open>$\<close> of the alternation is not escaped:
  it is the end-of-input anchor.
\<close>

definition informational_patterns :: "(bool \<times> rx) list" where
  "informational_patterns =
     [(True, Seq Bol (alts [asc ''how'', asc ''what'', asc ''why'', asc ''when'', asc ''where'',
         asc ''who'', asc ''which'', asc ''comment'', [0x71, 0x75, 0xE9], [0x63, 0xF3, 0x6D, 0x6F],
         [0x43A, 0x43E, 0x433, 0x434, 0x430], [0x447, 0x442, 0x43E], [0x43A, 0x430, 0x43A],
         [0x4EC0, 0x4E48], [0x600E, 0x4E48], [0x3069, 0x3046], [0x4F55], [0xC65C],
         [0xBB34, 0xC5C7]])),
      (True, alts [asc ''guide'', asc ''tutorial'', asc ''tips'', asc ''learn'', asc ''understand'',
         [0x443, 0x447, 0x438, 0x442, 0x44C], [0x5B66, 0x4E60], [0x62A, 0x639, 0x644, 0x645],
         [0x67, 0x75, 0xED, 0x61], [0x30AC, 0x30A4, 0x30C9]]),
      (False, Seq (Lit (asc ''?'')) Eol)]"

definition commercial_patterns :: "(bool \<times> rx) list" where
  "commercial_patterns =
     [(True, alts [asc ''buy'', asc ''purchase'', asc ''price'', asc ''cost'', asc ''cheap'',
         asc ''best'', asc ''review'', asc ''vs'', asc ''compare'',
         [0x43A, 0x443, 0x43F, 0x438, 0x442, 0x44C],
         [0x43F, 0x43E, 0x43A, 0x443, 0x43F, 0x43A, 0x430], [0x446, 0x435, 0x43D, 0x430],
         [0x8D2D, 0x4E70], [0x4EF7, 0x683C], [0x634, 0x631, 0x627, 0x621], [0x633, 0x639, 0x631],
         asc ''comprar'', asc ''precio'', [0x6BD4, 0x8F03], [0x8CFC, 0x5165]]),
      (True, alts [asc ''discount'', asc ''deal'', asc ''sale'', asc ''offer'',
         [0x441, 0x43A, 0x438, 0x434, 0x43A, 0x430], [0x6298, 0x6263],
         [0x62A, 0x62E, 0x641, 0x64A, 0x636], asc ''descuento'', [0x5272, 0x5F15]]),
      (False,
         Seq (Cls isDigit) (Seq (Star isDigit)
           (Seq (Opt (Cls (\<lambda>c. c = 0x2E \<or> c = 0x2C))) (Seq (Star isDigit)
             (Seq (Star isWhiteSpace)
               (Alt (Lit [0x20AC]) (Alt Eol (Alt (Lit [0xA3]) (Alt (Lit [0xA5])
                 (Alt (Lit [0x20BD]) (Alt (Lit [0x20B9]) (Alt (Lit [0x20A9])
                   (Lit [0xFDFC])))))))))))))]"

definition navigational_patterns :: "(bool \<times> rx) list" where
  "navigational_patterns =
     [(True, alts [asc ''login'', asc ''signin'', asc ''website'', asc ''homepage'',
         asc ''contact'', asc ''about'', [0x432, 0x445, 0x43E, 0x434], [0x767B, 0x5F55],
         [0x62F, 0x62E, 0x648, 0x644], [0x30B5, 0x30A4, 0x30F3, 0x30A4, 0x30F3]]),
      (False, Seq Bol (Alt (Lit (asc ''www.''))
         (Seq (Lit (asc ''http'')) (Seq (Opt (Lit (asc ''s''))) (Lit (asc ''://'')))))),
      (True, alts [asc ''.com'', asc ''.org'', asc ''.net'', asc ''.edu''])]"

definition transactional_patterns :: "(bool \<times> rx) list" where
  "transactional_patterns =
     [(True, alts [asc ''download'', asc ''install'', asc ''signup'', asc ''register'',
         asc ''subscribe'', asc ''order'', [0x441, 0x43A, 0x430, 0x447, 0x430, 0x442, 0x44C],
         [0x4E0B, 0x8F7D], [0x62A, 0x62D, 0x645, 0x64A, 0x644],
         [0x30C0, 0x30A6, 0x30F3, 0x30ED, 0x30FC, 0x30C9], asc ''descargar'']),
      (True, alts [asc ''free'', asc ''trial'', asc ''demo'',
         [0x431, 0x435, 0x441, 0x43F, 0x43B, 0x430, 0x442, 0x43D, 0x43E], [0x514D, 0x8D39],
         [0x645, 0x62C, 0x627, 0x646, 0x64A], [0x7121, 0x6599], asc ''gratis''])]"

definition INTENT_PATTERNS :: "(Intent \<times> IntentConfig) list" where
  "INTENT_PATTERNS =
     [(Informational, \<lparr>patterns = informational_patterns, weight = 0.8\<rparr>),
      (Commercial, \<lparr>patterns = commercial_patterns, weight = 0.9\<rparr>),
      (Navigational, \<lparr>patterns = navigational_patterns, weight = 0.7\<rparr>),
      (Transactional, \<lparr>patterns = transactional_patterns, weight = 0.85\<rparr>)]"

text \<open>
  Whether the inner loop of \<open>classifyIntent\<close> reaches a pattern that matches; it
  leaves the loop at the first one.
\<close>

definition matchesIntent :: "IntentConfig \<Rightarrow> jsstring \<Rightarrow> bool" where
  "matchesIntent config lowerKeyword \<longleftrightarrow>
     list_ex (\<lambda>(ci, pattern). rx_test ci pattern lowerKeyword) (patterns config)"

definition classifyIntent :: "jsstring \<Rightarrow> Intent" where
  "classifyIntent keyword =
     (let lowerKeyword = toLowerCase keyword
      in fst (foldl (\<lambda>(bestIntent, bestScore) (intent, config).
                 if matchesIntent config lowerKeyword \<and> weight config > bestScore
                 then (intent, weight config) else (bestIntent, bestScore))
               (Informational, 0) INTENT_PATTERNS))"

section \<open>Topic of a group\<close>

datatype error = TypeError | SyntaxError

text \<open>
  \<open>new RegExp(source, 'i')\<close> compiles a source that is only known when the engine
  runs. The compiler of regular expressions is no part of the repository: it is the
  parameter \<open>RX\<close>, which gives the test of the compiled expression, or \<open>None\<close> where
  the constructor throws its \<open>SyntaxError\<close>.
\<close>

type_synonym RegExp = "jsstring \<Rightarrow> (jsstring \<Rightarrow> bool) option"

text \<open>The test \<open>/^[\d\s\-_.]+$/\<close>.\<close>

definition onlyDigitsSeps :: "jsstring \<Rightarrow> bool" where
  "onlyDigitsSeps s \<longleftrightarrow>
     s \<noteq> [] \<and> list_all (\<lambda>c. isDigit c \<or> isWhiteSpace c \<or> c = 0x2D \<or> c = 0x5F \<or> c = 0x2E) s"

text \<open>The inner loop of \<open>findCommonSubstrings\<close>: what one length adds to \<open>commonSubstrings\<close>.\<close>

definition candidatesAt :: "jsstring list \<Rightarrow> jsstring \<Rightarrow> nat \<Rightarrow> jsstring list" where
  "candidatesAt keywords firstKeyword len =
     filter (\<lambda>sub. list_all (\<lambda>keyword. includesStr (toLowerCase keyword) sub) keywords \<and>
                    \<not> onlyDigitsSeps sub)
       (map (\<lambda>start. substring firstKeyword start (start + len))
          [0..<Suc (length firstKeyword - len)])"

text \<open>The outer loop, from \<open>len\<close> down to 3, left at the first length that adds something.\<close>

function commonSearch :: "jsstring list \<Rightarrow> jsstring \<Rightarrow> nat \<Rightarrow> jsstring list" where
  "commonSearch keywords firstKeyword len =
     (if len < 3 then []
      else let found = candidatesAt keywords firstKeyword len
           in if length found > 0 then found
              else commonSearch keywords firstKeyword (len - 1))"
  by pat_completeness auto
termination
  by (relation "measure (\<lambda>(keywords, firstKeyword, len). len)") auto

declare commonSearch.simps [simp del]

text \<open>The source \<open>\b${a}\b\<close> of the regular expression built around a candidate.\<close>

definition wordPattern :: "jsstring \<Rightarrow> jsstring" where
  "wordPattern a = [0x5C, 0x62] @ a @ [0x5C, 0x62]"

text \<open>
  \<open>keywords.some(k => new RegExp(..., 'i').test(k))\<close>: the expression is built for the
  first keyword already, so a source that does not compile throws whenever there is a keyword.
\<close>

definition isWord :: "RegExp \<Rightarrow> jsstring list \<Rightarrow> jsstring \<Rightarrow> error + bool" where
  "isWord RX keywords a =
     (if keywords = [] then Inr False
      else case RX (wordPattern a) of
             None \<Rightarrow> Inl SyntaxError
           | Some test \<Rightarrow> Inr (list_ex test keywords))"

text \<open>
  The \<open>sort\<close> of the candidates. It calls the comparator only on two or more
  candidates, and then on each of them; the comparator orders words first, then longer
  candidates first, and the sort is stable.
\<close>

definition sortCandidates :: "RegExp \<Rightarrow> jsstring list \<Rightarrow> jsstring list \<Rightarrow> error + jsstring list" where
  "sortCandidates RX keywords cands =
     (if length cands < 2 then Inr cands
      else if list_ex (\<lambda>a. isWord RX keywords a = Inl SyntaxError) cands then Inl SyntaxError
      else Inr (sort_key (\<lambda>a. (if isWord RX keywords a = Inr True then 0 else 1 :: nat,
                              - int (length a))) cands))"

definition findCommonSubstrings :: "RegExp \<Rightarrow> jsstring list \<Rightarrow> error + jsstring list" where
  "findCommonSubstrings RX keywords =
     (if length keywords < 2 then Inr []
      else
        let firstKeyword = toLowerCase (keywords ! 0);
            commonSubstrings = commonSearch keywords firstKeyword (min (length firstKeyword) 20)
        in sortCandidates RX keywords (filter (\<lambda>s. length (trim s) > 2) commonSubstrings))"

text \<open>
  \<open>tokenFreq\<close> is a \<open>Map\<close>: its entries in insertion order. A token that is counted
  again keeps its place.
\<close>

definition bump :: "(jsstring \<times> nat) list \<Rightarrow> jsstring \<Rightarrow> (jsstring \<times> nat) list" where
  "bump m token =
     (if token \<in> fst ` set m
      then map (\<lambda>(k, v). if k = token then (k, v + 1) else (k, v)) m
      else m @ [(token, 1)])"

definition tokenFreqOf :: "jsstring list \<Rightarrow> (jsstring \<times> nat) list" where
  "tokenFreqOf keywords =
     foldl (\<lambda>tokenFreq keyword.
              foldl (\<lambda>tokenFreq token. if length token > 1 then bump tokenFreq token else tokenFreq)
                tokenFreq (getWordTokens keyword))
       [] keywords"

text \<open>The entries that pass the filter, sorted; \<open>commonTokens\<close> is the first three of them.\<close>

definition keptTokens :: "jsstring list \<Rightarrow> (jsstring \<times> nat) list" where
  "keptTokens keywords =
     sort_key (\<lambda>(token, freq). (- int freq, - int (length token)))
       (filter (\<lambda>(token, freq). real freq > min 2 (real (length keywords) * 0.3))
          (tokenFreqOf keywords))"

definition commonTokens :: "jsstring list \<Rightarrow> jsstring list" where
  "commonTokens keywords = map fst (take 3 (keptTokens keywords))"

fun join :: "jsstring \<Rightarrow> jsstring list \<Rightarrow> jsstring" where
  "join sep [] = []"
| "join sep [x] = x"
| "join sep (x # y # ys) = x @ sep @ join sep (y # ys)"

text \<open>
  \<open>extractGroupTopic\<close>. The trigram counts of its second strategy are never read and
  are left out. On no keywords the third strategy reads \<open>undefined.length\<close>.
\<close>

definition extractGroupTopic :: "RegExp \<Rightarrow> jsstring list \<Rightarrow> error + jsstring" where
  "extractGroupTopic RX keywords =
     (case findCommonSubstrings RX keywords of
        Inl e \<Rightarrow> Inl e
      | Inr (c # _) \<Rightarrow> Inr c
      | Inr [] \<Rightarrow>
          if length (commonTokens keywords) > 0
          then Inr (join (if isCJK (case keywords of [] \<Rightarrow> [] | firstKeyword # _ \<Rightarrow> firstKeyword)
                          then [] else asc '' + '')
                      (commonTokens keywords))
          else (case keywords of
                  [] \<Rightarrow> Inl TypeError
                | k0 # _ \<Rightarrow>
                    let shortestKeyword =
                          foldl (\<lambda>shortest keyword.
                                   if length keyword < length shortest then keyword else shortest)
                            k0 keywords
                    in Inr (if length shortestKeyword > 30
                            then substring shortestKeyword 0 27 @ asc ''...''
                            else shortestKeyword)))"

section \<open>Records, groups and options\<close>

text \<open>
  A keyword record is a JavaScript object: the engine holds references to it and
  compares references (\<open>indexOf\<close>). The objects live in a heap, a list of keywords is a
  list of references, and the same reference may occur in it twice.
\<close>

record KeywordRecord =
  query :: jsstring
  clicks :: jsnum
  impressions :: jsnum
  ctr :: jsnum
  position :: jsnum

type_synonym ref = nat
type_synonym heap = "ref \<Rightarrow> KeywordRecord"

record GroupMetrics =
  totalClicks :: real
  totalImpressions :: real
  avgCTR :: real
  avgPosition :: jsnum
  keywordCount :: nat

text \<open>The \<open>id\<close> of a group is \<open>group_\<close> followed by the number \<open>gid\<close>.\<close>

record Group =
  gid :: nat
  topic :: jsstring
  intent :: Intent
  "keywords" :: "ref list"
  metrics :: GroupMetrics
  gsize :: nat
  expanded :: bool

text \<open>A count that the returned object does not have is \<open>None\<close>.\<close>

record GroupingResult =
  groups :: "Group list"
  ungrouped :: "ref list"
  totalGroups :: "nat option"
  totalKeywords :: "nat option"
  groupedKeywords :: "nat option"

record Options =
  similarityThreshold :: jsnum
  minGroupSize :: int
  maxGroups :: int
  groupByIntent :: bool

definition defaultOptions :: Options where
  "defaultOptions =
     \<lparr>similarityThreshold = Num 0.5, minGroupSize = 2, maxGroups = 20, groupByIntent = True\<rparr>"

text \<open>\<open>Math.round(x)\<close> is \<open>floor(x + 0.5)\<close>.\<close>

definition mathRound :: "real \<Rightarrow> real" where
  "mathRound x = of_int \<lfloor>x + 1 / 2\<rfloor>"

definition calculateGroupMetrics :: "heap \<Rightarrow> ref list \<Rightarrow> GroupMetrics" where
  "calculateGroupMetrics h kws =
     (let clicksSum = foldl (\<lambda>sum kw. sum + or0 (clicks (h kw))) 0 kws;
          impressionsSum = foldl (\<lambda>sum kw. sum + or0 (impressions (h kw))) 0 kws;
          ctrPercent = (if impressionsSum > 0 then (clicksSum / impressionsSum) * 100 else 0);
          positions = foldl (\<lambda>sum kw. sum + or0 (position (h kw))) 0 kws
      in \<lparr>totalClicks = clicksSum,
          totalImpressions = impressionsSum,
          avgCTR = mathRound (ctrPercent * 100) / 100,
          avgPosition =
            (if length kws = 0 then NaN
             else Num (mathRound (positions / real (length kws) * 10) / 10)),
          keywordCount = length kws\<rparr>)"

section \<open>Hierarchical clustering\<close>

text \<open>
  \<open>createSimilarityMatrix\<close>: the diagonal is 1; a cell off the diagonal holds the
  similarity of the two queries, computed with the lower index first.
\<close>

definition createSimilarityMatrix :: "heap \<Rightarrow> ref list \<Rightarrow> jsnum list list" where
  "createSimilarityMatrix h kws =
     map (\<lambda>i. map (\<lambda>j.
            if i = j then Num 1
            else if i < j then calculateSimilarity (query (h (kws ! i))) (query (h (kws ! j)))
            else calculateSimilarity (query (h (kws ! j))) (query (h (kws ! i))))
          [0..<length kws])
       [0..<length kws]"

text \<open>\<open>xs.indexOf(x)\<close>: the first index of \<open>x\<close>, or \<open>None\<close> for \<open>-1\<close>.\<close>

fun indexOf :: "'a list \<Rightarrow> 'a \<Rightarrow> nat option" where
  "indexOf [] x = None"
| "indexOf (y # ys) x = (if y = x then Some 0 else map_option Suc (indexOf ys x))"

text \<open>
  \<open>similarities[index1][index2]\<close>: reading a cell of a row that does not exist throws a
  \<open>TypeError\<close>; a cell that does not exist in its row is \<open>undefined\<close>, which
  \<open>Math.max\<close> turns into \<open>NaN\<close>.
\<close>

definition simCell :: "jsnum list list \<Rightarrow> ref list \<Rightarrow> ref \<Rightarrow> ref \<Rightarrow> error + jsnum" where
  "simCell similarities allItems item1 item2 =
     (case indexOf allItems item1 of
        None \<Rightarrow> Inl TypeError
      | Some index1 \<Rightarrow>
          if index1 < length similarities
          then (case indexOf allItems item2 of
                  None \<Rightarrow> Inr NaN
                | Some index2 \<Rightarrow>
                    if index2 < length (similarities ! index1)
                    then Inr (similarities ! index1 ! index2) else Inr NaN)
          else Inl TypeError)"

text \<open>A loop whose body may throw: the state after the last element, or the first error.\<close>

fun foldE :: "('s \<Rightarrow> 'a \<Rightarrow> error + 's) \<Rightarrow> 's \<Rightarrow> 'a list \<Rightarrow> error + 's" where
  "foldE f s [] = Inr s"
| "foldE f s (x # xs) = (case f s x of Inl e \<Rightarrow> Inl e | Inr s' \<Rightarrow> foldE f s' xs)"

definition getClusterSimilarity ::
    "ref list \<Rightarrow> ref list \<Rightarrow> jsnum list list \<Rightarrow> ref list \<Rightarrow> error + jsnum" where
  "getClusterSimilarity cluster1 cluster2 similarities allItems =
     foldE (\<lambda>maxSimilarity (item1, item2).
              case simCell similarities allItems item1 item2 of
                Inl e \<Rightarrow> Inl e
              | Inr similarity \<Rightarrow> Inr (js_max maxSimilarity similarity))
       (Num 0) (List.product cluster1 cluster2)"

text \<open>The pairs \<open>(i, j)\<close> with \<open>i < j < n\<close>, in the order of the two nested loops.\<close>

definition indexPairs :: "nat \<Rightarrow> (nat \<times> nat) list" where
  "indexPairs n = concat (map (\<lambda>i. map (\<lambda>j. (i, j)) [Suc i..<n]) [0..<n])"

text \<open>
  The search for the two most similar clusters. \<open>mergeIndices\<close> is \<open>None\<close> while it
  is the sentinel \<open>[-1, -1]\<close>.
\<close>

definition findMostSimilar ::
    "ref list list \<Rightarrow> jsnum list list \<Rightarrow> ref list \<Rightarrow> error + (jsnum \<times> (nat \<times> nat) option)" where
  "findMostSimilar clusters similarities items =
     foldE (\<lambda>(maxSimilarity, mergeIndices) (i, j).
              case getClusterSimilarity (clusters ! i) (clusters ! j) similarities items of
                Inl e \<Rightarrow> Inl e
              | Inr similarity \<Rightarrow>
                  if js_gt similarity maxSimilarity then Inr (similarity, Some (i, j))
                  else Inr (maxSimilarity, mergeIndices))
       (Num (- 1), None) (indexPairs (length clusters))"

text \<open>The merge: the clusters other than \<open>i\<close> and \<open>j\<close>, then the merged cluster.\<close>

definition mergeClusters :: "ref list list \<Rightarrow> nat \<Rightarrow> nat \<Rightarrow> ref list list" where
  "mergeClusters clusters i j =
     map snd (filter (\<lambda>(index, c). index \<noteq> i \<and> index \<noteq> j) (enumerate 0 clusters))
     @ [clusters ! i @ clusters ! j]"

text \<open>
  One round of the \<open>while (true)\<close> loop: it leaves the loop, throws, or goes on with
  merged clusters. Spreading \<open>clusters[-1]\<close>, which is \<open>undefined\<close>, throws a \<open>TypeError\<close>.
\<close>

datatype round = Leave | Throw error | Merge "ref list list"

definition clusteringRound ::
    "ref list \<Rightarrow> jsnum list list \<Rightarrow> jsnum \<Rightarrow> ref list list \<Rightarrow> round" where
  "clusteringRound items similarities threshold clusters =
     (case findMostSimilar clusters similarities items of
        Inl e \<Rightarrow> Throw e
      | Inr (maxSimilarity, mergeIndices) \<Rightarrow>
          if js_lt maxSimilarity threshold then Leave
          else (case mergeIndices of
                  None \<Rightarrow> Throw TypeError
                | Some (i, j) \<Rightarrow> Merge (mergeClusters clusters i j)))"

text \<open>A round that merges leaves one cluster less, so the loop ends.\<close>

lemma indexPairs_iff: "(i, j) \<in> set (indexPairs n) \<longleftrightarrow> i < j \<and> j < n"
  by (force simp add: indexPairs_def)

lemma findMostSimilar_step_indices:
  "foldE (\<lambda>(maxSimilarity, mergeIndices) (i, j).
              case getClusterSimilarity (clusters ! i) (clusters ! j) similarities items of
                Inl e \<Rightarrow> Inl e
              | Inr similarity \<Rightarrow>
                  if js_gt similarity maxSimilarity then Inr (similarity, Some (i, j))
                  else Inr (maxSimilarity, mergeIndices)) (m, mi) ps = Inr (m', Some p)
   \<Longrightarrow> mi = Some p \<or> p \<in> set ps"
proof (induction ps arbitrary: m mi)
  case Nil
  then show ?case by simp
next
  case (Cons q ps)
  then show ?case
    by (cases q) (fastforce split: sum.splits if_splits)
qed

lemma findMostSimilar_indices:
  "findMostSimilar clusters similarities items = Inr (m, Some (i, j)) \<Longrightarrow> i < j \<and> j < length clusters"
  unfolding findMostSimilar_def
  using findMostSimilar_step_indices [of clusters similarities items "Num (- 1)" None "indexPairs (length clusters)" m "(i, j)"]
  by (simp add: indexPairs_iff)

lemma removed_length:
  "length (filter (\<lambda>(index, c). index \<noteq> i \<and> index \<noteq> j) (enumerate k cs))
     + (if k \<le> i \<and> i < k + length cs then 1 else 0)
     + (if k \<le> j \<and> j < k + length cs \<and> j \<noteq> i then 1 else 0) = length cs"
proof (induction cs arbitrary: k)
  case Nil
  then show ?case by simp
next
  case (Cons c cs)
  show ?case using Cons.IH [of "Suc k"] by auto
qed

lemma mergeClusters_length:
  "i < j \<Longrightarrow> j < length cs \<Longrightarrow> Suc (length (mergeClusters cs i j)) = length cs"
  using removed_length [where i = i and j = j and cs = cs and k = 0] by (simp add: mergeClusters_def)

lemma clusteringRound_Merge_length:
  "clusteringRound items similarities threshold clusters = Merge clusters' \<Longrightarrow>
     length clusters' < length clusters"
  unfolding clusteringRound_def
  by (auto split: sum.splits prod.splits if_splits option.splits
      dest!: findMostSimilar_indices dest: mergeClusters_length)

function hcLoop ::
    "ref list \<Rightarrow> jsnum list list \<Rightarrow> jsnum \<Rightarrow> ref list list \<Rightarrow> error + ref list list" where
  "hcLoop items similarities threshold clusters =
     (case clusteringRound items similarities threshold clusters of
        Leave \<Rightarrow> Inr clusters
      | Throw e \<Rightarrow> Inl e
      | Merge clusters' \<Rightarrow> hcLoop items similarities threshold clusters')"
  by pat_completeness auto
termination
  by (relation "measure (\<lambda>(items, similarities, threshold, clusters). length clusters)")
     (auto dest: clusteringRound_Merge_length)

declare hcLoop.simps [simp del]

definition performHierarchicalClustering ::
    "ref list \<Rightarrow> jsnum list list \<Rightarrow> jsnum \<Rightarrow> error + ref list list" where
  "performHierarchicalClustering items similarities threshold =
     hcLoop items similarities threshold (map (\<lambda>item. [item]) items)"

text \<open>The values that \<open>clusters\<close> takes at the head of the loop.\<close>

inductive hcReach :: "ref list \<Rightarrow> jsnum list list \<Rightarrow> jsnum \<Rightarrow> ref list list \<Rightarrow> bool"
  for items similarities threshold where
    initial: "hcReach items similarities threshold (map (\<lambda>item. [item]) items)"
  | merged: "hcReach items similarities threshold clusters \<Longrightarrow>
             clusteringRound items similarities threshold clusters = Merge clusters' \<Longrightarrow>
             hcReach items similarities threshold clusters'"

section \<open>Grouping\<close>

text \<open>
  \<open>groupBySearchIntent\<close>: the four buckets in the order of their keys, each with
  its keywords in the order of the input. The key of the single bucket \<open>all\<close> of a
  run without intents is \<open>None\<close>.
\<close>

definition groupBySearchIntent :: "heap \<Rightarrow> ref list \<Rightarrow> (Intent option \<times> ref list) list" where
  "groupBySearchIntent h keywordData =
     map (\<lambda>bucketIntent. (Some bucketIntent,
                     filter (\<lambda>keyword. classifyIntent (query (h keyword)) = bucketIntent)
                       keywordData))
       [Informational, Commercial, Navigational, Transactional]"

text \<open>
  The body of \<open>clusters.forEach\<close>. The key of a bucket is an intent exactly when
  \<open>groupByIntent\<close> is set; otherwise the intent of a group is that of its first query.
\<close>

definition processCluster ::
    "RegExp \<Rightarrow> heap \<Rightarrow> Options \<Rightarrow> Intent option \<Rightarrow> Group list \<times> ref list \<Rightarrow> ref list \<Rightarrow>
     error + Group list \<times> ref list" where
  "processCluster RX h opts key state cluster =
     (case state of (finalGroups, pool) \<Rightarrow>
        if int (length cluster) \<ge> minGroupSize opts
        then (case extractGroupTopic RX (map (\<lambda>item. query (h item)) cluster) of
                Inl e \<Rightarrow> Inl e
              | Inr groupTopic \<Rightarrow>
                  Inr (finalGroups @
                       [\<lparr>gid = length finalGroups + 1,
                         topic = groupTopic,
                         intent = (case key of
                                     Some bucketIntent \<Rightarrow> bucketIntent
                                   | None \<Rightarrow> classifyIntent (query (h (cluster ! 0)))),
                         keywords = cluster,
                         metrics = calculateGroupMetrics h cluster,
                         gsize = length cluster,
                         expanded = False\<rparr>],
                       pool))
        else Inr (finalGroups, pool @ cluster))"

text \<open>The body of the loop over the buckets; \<open>pool\<close> is the array \<open>ungrouped\<close>.\<close>

definition processBucket ::
    "RegExp \<Rightarrow> heap \<Rightarrow> Options \<Rightarrow> Group list \<times> ref list \<Rightarrow> Intent option \<times> ref list \<Rightarrow>
     error + Group list \<times> ref list" where
  "processBucket RX h opts state bucket =
     (case state of (finalGroups, pool) \<Rightarrow>
      case bucket of (key, intentKeywords) \<Rightarrow>
        if length intentKeywords < 2 then Inr (finalGroups, pool @ intentKeywords)
        else (case performHierarchicalClustering intentKeywords
                     (createSimilarityMatrix h intentKeywords) (similarityThreshold opts) of
                Inl e \<Rightarrow> Inl e
              | Inr clusters \<Rightarrow> foldE (processCluster RX h opts key) (finalGroups, pool) clusters))"

definition collectGroups ::
    "RegExp \<Rightarrow> heap \<Rightarrow> ref list \<Rightarrow> Options \<Rightarrow> error + Group list \<times> ref list" where
  "collectGroups RX h keywordData opts =
     foldE (processBucket RX h opts) ([], [])
       (if groupByIntent opts then groupBySearchIntent h keywordData else [(None, keywordData)])"

text \<open>
  \<open>xs.splice(start)\<close> removes the elements from \<open>start\<close> on; a negative \<open>start\<close>
  counts from the end. This is the index it cuts at.
\<close>

definition spliceStart :: "nat \<Rightarrow> int \<Rightarrow> nat" where
  "spliceStart len start =
     (if start < 0 then nat (max (int len + start) 0) else nat (min start (int len)))"

text \<open>The stable sort by \<open>totalClicks\<close>, the cut at \<open>maxGroups\<close> and the counts.\<close>

definition finishGroups :: "Options \<Rightarrow> ref list \<Rightarrow> Group list \<times> ref list \<Rightarrow> GroupingResult" where
  "finishGroups opts keywordData state =
     (case state of (collected, pool) \<Rightarrow>
        let sortedGroups = sort_key (\<lambda>g. - totalClicks (metrics g)) collected;
            cut = (if int (length sortedGroups) > maxGroups opts
                   then spliceStart (length sortedGroups) (maxGroups opts)
                   else length sortedGroups);
            finalGroups = take cut sortedGroups;
            extraGroups = drop cut sortedGroups
        in \<lparr>groups = finalGroups,
            ungrouped = pool @ concat (map keywords extraGroups),
            totalGroups = Some (length finalGroups),
            totalKeywords = Some (length keywordData),
            groupedKeywords = Some (foldl (\<lambda>sum group. sum + gsize group) 0 finalGroups)\<rparr>)"

text \<open>\<open>groupKeywords\<close>; a \<open>keywordData\<close> that is \<open>null\<close> or \<open>undefined\<close> is \<open>None\<close>.\<close>

definition groupKeywords ::
    "RegExp \<Rightarrow> heap \<Rightarrow> ref list option \<Rightarrow> Options \<Rightarrow> error + GroupingResult" where
  "groupKeywords RX h keywordData opts =
     (case keywordData of
        None \<Rightarrow>
          Inr \<lparr>groups = [], ungrouped = [], totalGroups = None, totalKeywords = None,
               groupedKeywords = None\<rparr>
      | Some kd \<Rightarrow>
          if length kd = 0
          then Inr \<lparr>groups = [], ungrouped = [], totalGroups = None, totalKeywords = None,
                    groupedKeywords = None\<rparr>
          else (case collectGroups RX h kd opts of
                  Inl e \<Rightarrow> Inl e
                | Inr state \<Rightarrow> Inr (finishGroups opts kd state)))"

section \<open>The specification of the intent, and notions for the proofs\<close>

text \<open>
  The selection of an intent as the specification words it: among the categories that
  match the lower-cased query the one of the highest weight, the one declared first
  among those of equal weight, and \<open>Informational\<close> when no category matches.
\<close>

definition matchingCategories :: "jsstring \<Rightarrow> (Intent \<times> IntentConfig) list" where
  "matchingCategories q =
     filter (\<lambda>(category, config). matchesIntent config (toLowerCase q)) INTENT_PATTERNS"

definition classify_spec :: "jsstring \<Rightarrow> Intent" where
  "classify_spec q =
     (let cs = matchingCategories q
      in if cs = [] then Informational
         else fst (hd (filter (\<lambda>(category, config).
                                list_all (\<lambda>(category', config'). weight config' \<le> weight config) cs)
                         cs)))"

text \<open>\<open>w\<close> occurs in \<open>s\<close> at some offset.\<close>

fun occurs :: "'a list \<Rightarrow> 'a list \<Rightarrow> bool" where
  "occurs w [] = (w = [])"
| "occurs w (c # cs) = (prefix w (c # cs) \<or> occurs w cs)"

text \<open>A string that lower-casing leaves as it is, code unit by code unit.\<close>

definition lowerNormal :: "jsstring \<Rightarrow> bool" where
  "lowerNormal s \<longleftrightarrow> list_all (\<lambda>c. lower_cu c = [c]) s"

text \<open>The two queries of the specification's third scenario.\<close>

definition q1 :: jsstring where "q1 = asc ''how to fix a leaky faucet''"
definition q2 :: jsstring where "q2 = asc ''buy iphone 15 price''"


text \<open>
  A fragment of \<open>new RegExp(source, 'i')\<close> for the sources \<open>\b\<close> + literal + \<open>\b\<close>
  that \<open>findCommonSubstrings\<close> builds. A literal with an opening parenthesis and no
  closing one, no bracket and no backslash is an unterminated group: the constructor
  throws. A literal of letters, digits and spaces is matched as it is between two
  word boundaries. The fragment is faithful on these two kinds of literal only.
\<close>

definition RegExp_i :: RegExp where
  "RegExp_i source =
     (let lit = take (length source - 4) (drop 2 source)
      in if 0x28 \<in> set lit \<and> 0x29 \<notin> set lit \<and> 0x5B \<notin> set lit \<and> 0x5C \<notin> set lit then None
         else Some (rx_test True (Seq WordB (Seq (Lit lit) WordB))))"


text \<open>Heaps of keyword records for the examples; only the queries differ.\<close>

definition recordOf :: "jsstring \<Rightarrow> KeywordRecord" where
  "recordOf q = \<lparr>query = q, clicks = Num 0, impressions = Num 0, ctr = Num 0, position = Num 1\<rparr>"

definition heapParen :: heap where
  "heapParen r = recordOf (if r = 2 then asc ''(ab (ab'' else asc ''(ab'')"

definition heapPairs :: heap where
  "heapPairs r = recordOf (if r < 4 then asc ''aa'' else asc ''zz'')"

definition heapChain :: heap where
  "heapChain r = recordOf (if r = 2 then asc ''ab'' else if r = 3 then asc ''abc'' else asc ''bc'')"

text \<open>The windows of \<open>n\<close> elements of a list, from left to right: its n-grams.\<close>

fun windows :: "nat \<Rightarrow> 'a list \<Rightarrow> 'a list list" where
  "windows n [] = []"
| "windows n (c # cs) = (if length (c # cs) < n then [] else take n (c # cs) # windows n cs)"

text \<open>The records that a state of the grouping holds, in its groups and in its pool.\<close>

definition content :: "Group list \<times> ref list \<Rightarrow> ref multiset" where
  "content state = mset (concat (map keywords (fst state))) + mset (snd state)"

definition sizesOk :: "Group list \<Rightarrow> bool" where
  "sizesOk gs \<longleftrightarrow> list_all (\<lambda>g. gsize g = length (keywords g)) gs"

section \<open>Evaluating the regular expressions\<close>

lemma take_eq_prefix: "take (length w) t = w \<longleftrightarrow> prefix w t"
proof
  assume "take (length w) t = w"
  then show "prefix w t" by (metis take_is_prefix)
next
  assume "prefix w t"
  then obtain r where "t = w @ r" by (auto simp add: prefix_def)
  then show "take (length w) t = w" by simp
qed

lemma occurs_iff: "occurs w s \<longleftrightarrow> (\<exists>i\<le>length s. prefix w (drop i s))"
proof (induction s)
  case Nil
  then show ?case by simp
next
  case (Cons c cs)
  have "(\<exists>i\<le>length (c # cs). prefix w (drop i (c # cs))) \<longleftrightarrow>
        prefix w (c # cs) \<or> (\<exists>i\<le>length cs. prefix w (drop i cs))"
  proof
    assume "\<exists>i\<le>length (c # cs). prefix w (drop i (c # cs))"
    then obtain i where i: "i \<le> length (c # cs)" "prefix w (drop i (c # cs))" by blast
    show "prefix w (c # cs) \<or> (\<exists>i\<le>length cs. prefix w (drop i cs))"
    proof (cases i)
      case 0
      with i show ?thesis by simp
    next
      case (Suc k)
      with i show ?thesis by auto
    qed
  next
    assume "prefix w (c # cs) \<or> (\<exists>i\<le>length cs. prefix w (drop i cs))"
    then show "\<exists>i\<le>length (c # cs). prefix w (drop i (c # cs))"
    proof
      assume "prefix w (c # cs)"
      then have "prefix w (drop 0 (c # cs))" by simp
      then show ?thesis by blast
    next
      assume "\<exists>i\<le>length cs. prefix w (drop i cs)"
      then obtain i where "i \<le> length cs" "prefix w (drop i cs)" by blast
      then have "Suc i \<le> length (c # cs)" "prefix w (drop (Suc i) (c # cs))" by simp_all
      then show ?thesis by blast
    qed
  qed
  with Cons show ?case by simp
qed

lemma lowerNormal_map: "lowerNormal s \<Longrightarrow> map lower_cu s = map (\<lambda>c. [c]) s"
  by (induction s) (auto simp add: lowerNormal_def)

lemma lowerNormal_take_drop: "lowerNormal s \<Longrightarrow> lowerNormal (take n (drop i s))"
proof -
  assume "lowerNormal s"
  then have "\<forall>c\<in>set s. lower_cu c = [c]" by (simp add: lowerNormal_def list_all_iff)
  moreover have "set (take n (drop i s)) \<subseteq> set s"
    using set_take_subset set_drop_subset by fast
  ultimately show ?thesis by (auto simp add: lowerNormal_def list_all_iff)
qed

lemma eqs_lowerNormal: "lowerNormal u \<Longrightarrow> lowerNormal w \<Longrightarrow> eqs ci u w \<longleftrightarrow> u = w"
proof -
  assume u: "lowerNormal u" and w: "lowerNormal w"
  have "inj (\<lambda>c::cu. [c])" by (simp add: inj_def)
  then have "map (\<lambda>c::cu. [c]) u = map (\<lambda>c. [c]) w \<longleftrightarrow> u = w"
    by (rule inj_map_eq_map)
  then show ?thesis using u w by (simp add: eqs_def lowerNormal_map)
qed

lemma rx_ends_alts: "rx_ends ci (alts ws) s i = concat (map (\<lambda>w. rx_ends ci (Lit w) s i) ws)"
  by (induction ws) (simp_all add: alts_def)

lemma rx_ends_Lit_lowerNormal:
  assumes "lowerNormal s" "lowerNormal w"
  shows "rx_ends ci (Lit w) s i \<noteq> [] \<longleftrightarrow> i \<le> length s \<and> prefix w (drop i s)"
proof -
  have "eqs ci (take (length w) (drop i s)) w \<longleftrightarrow> prefix w (drop i s)"
    using eqs_lowerNormal [OF lowerNormal_take_drop [OF assms(1)] assms(2)] take_eq_prefix by blast
  moreover have "prefix w (drop i s) \<Longrightarrow> i \<le> length s \<Longrightarrow> i + length w \<le> length s"
    by (auto dest!: prefix_length_le)
  ultimately show ?thesis by auto
qed

lemma rx_test_alts_raw:
  "rx_test ci (alts ws) s \<longleftrightarrow> (\<exists>w\<in>set ws. \<exists>i\<le>length s. rx_ends ci (Lit w) s i \<noteq> [])"
proof -
  have "set [0..<Suc (length s)] = {i. i \<le> length s}" by auto
  then have "rx_test ci (alts ws) s \<longleftrightarrow> (\<exists>i\<le>length s. rx_ends ci (alts ws) s i \<noteq> [])"
    by (simp add: rx_test_def list_ex_iff)
  also have "\<dots> \<longleftrightarrow> (\<exists>i\<le>length s. \<exists>w\<in>set ws. rx_ends ci (Lit w) s i \<noteq> [])"
    by (simp only: rx_ends_alts concat_eq_Nil_conv set_map ball_simps bex_simps image_iff not_all
        Bex_def Ball_def) blast
  finally show ?thesis by blast
qed

lemma rx_test_alts:
  assumes "lowerNormal s" "list_all lowerNormal ws"
  shows "rx_test ci (alts ws) s \<longleftrightarrow> list_ex (\<lambda>w. occurs w s) ws"
proof -
  have "\<And>w i. w \<in> set ws \<Longrightarrow>
          rx_ends ci (Lit w) s i \<noteq> [] \<longleftrightarrow> i \<le> length s \<and> prefix w (drop i s)"
    using assms rx_ends_Lit_lowerNormal by (simp add: list_all_iff)
  then have "(\<exists>w\<in>set ws. \<exists>i\<le>length s. rx_ends ci (Lit w) s i \<noteq> []) \<longleftrightarrow>
             (\<exists>w\<in>set ws. \<exists>i\<le>length s. prefix w (drop i s))"
    by blast
  then show ?thesis by (simp only: rx_test_alts_raw list_ex_iff occurs_iff)
qed

lemma rx_test_Bol_alts:
  assumes "lowerNormal s" "list_all lowerNormal ws"
  shows "rx_test ci (Seq Bol (alts ws)) s \<longleftrightarrow> list_ex (\<lambda>w. prefix w s) ws"
proof -
  have "rx_test ci (Seq Bol (alts ws)) s \<longleftrightarrow> (\<exists>w\<in>set ws. rx_ends ci (Lit w) s 0 \<noteq> [])"
    by (auto simp add: rx_test_def list_ex_iff rx_ends_alts)
  also have "\<dots> \<longleftrightarrow> (\<exists>w\<in>set ws. prefix w s)"
    using assms rx_ends_Lit_lowerNormal [of s _ ci 0] by (auto simp add: list_all_iff)
  finally show ?thesis by (simp add: list_ex_iff)
qed

lemma lower_cu_normal: "list_all (\<lambda>c. lower_cu c = [c]) (lower_cu c)"
proof -
  consider "0x41 \<le> c \<and> c \<le> 0x5A" | "0xC0 \<le> c \<and> c \<le> 0xDE \<and> c \<noteq> 0xD7" | "c = 0x130"
    | "0x410 \<le> c \<and> c \<le> 0x42F" | "0x400 \<le> c \<and> c \<le> 0x40F"
    | "\<not> (0x41 \<le> c \<and> c \<le> 0x5A) \<and> \<not> (0xC0 \<le> c \<and> c \<le> 0xDE \<and> c \<noteq> 0xD7) \<and> c \<noteq> 0x130 \<and>
       \<not> (0x410 \<le> c \<and> c \<le> 0x42F) \<and> \<not> (0x400 \<le> c \<and> c \<le> 0x40F)"
    by blast
  then show ?thesis
  proof cases
    case 1 then show ?thesis by (simp add: lower_cu_def)
  next
    case 2 then show ?thesis by (simp add: lower_cu_def)
  next
    case 3 then show ?thesis by (simp add: lower_cu_def)
  next
    case 4 then show ?thesis by (simp add: lower_cu_def)
  next
    case 5 then show ?thesis by (simp add: lower_cu_def)
  next
    case 6 then show ?thesis by (simp add: lower_cu_def)
  qed
qed

lemma toLowerCase_lowerNormal: "lowerNormal (toLowerCase s)"
  using lower_cu_normal by (induction s) (auto simp add: toLowerCase_def lowerNormal_def)

lemma rx_test_Seq_Cls_False: "\<not> list_ex P s \<Longrightarrow> rx_test ci (Seq (Cls P) r) s = False"
  by (auto simp add: rx_test_def list_ex_iff)

lemma rx_ends_Lit_Eol:
  "rx_ends ci (Seq (Lit w) Eol) s i \<noteq> [] \<longleftrightarrow>
     rx_ends ci (Lit w) s i \<noteq> [] \<and> i + length w = length s"
proof (cases "rx_ends ci (Lit w) s i = []")
  case True
  then show ?thesis by simp
next
  case False
  then have "rx_ends ci (Lit w) s i = [i + length w]" by (simp split: if_splits)
  then show ?thesis by simp
qed

lemma rx_test_Lit_Eol:
  assumes "lowerNormal s" "lowerNormal w"
  shows "rx_test ci (Seq (Lit w) Eol) s \<longleftrightarrow> suffix w s"
proof -
  have "set [0..<Suc (length s)] = {i. i \<le> length s}" by auto
  then have "rx_test ci (Seq (Lit w) Eol) s \<longleftrightarrow>
      (\<exists>i\<le>length s. rx_ends ci (Seq (Lit w) Eol) s i \<noteq> [])"
    by (simp add: rx_test_def list_ex_iff del: rx_ends.simps)
  also have "\<dots> \<longleftrightarrow> (\<exists>i\<le>length s. prefix w (drop i s) \<and> i + length w = length s)"
    unfolding rx_ends_Lit_Eol rx_ends_Lit_lowerNormal [OF assms] by blast
  also have "\<dots> \<longleftrightarrow> suffix w s"
  proof
    assume "\<exists>i\<le>length s. prefix w (drop i s) \<and> i + length w = length s"
    then obtain i where i: "i \<le> length s" "prefix w (drop i s)" "i + length w = length s" by blast
    from i obtain zs where zs: "drop i s = w @ zs" by (auto simp add: prefix_def)
    have "length (drop i s) = length w" using i by simp
    with zs have "drop i s = w" by simp
    then show "suffix w s" by (metis suffix_drop)
  next
    assume "suffix w s"
    then obtain r where r: "s = r @ w" by (auto simp add: suffix_def)
    then have "length r \<le> length s \<and> prefix w (drop (length r) s) \<and> length r + length w = length s"
      by simp
    then show "\<exists>i\<le>length s. prefix w (drop i s) \<and> i + length w = length s" by blast
  qed
  finally show ?thesis .
qed

lemma matchesIntentI:
  "(ci, p) \<in> set (patterns c) \<Longrightarrow> rx_test ci p s \<Longrightarrow> matchesIntent c s"
  by (force simp add: matchesIntent_def list_ex_iff)

lemma q1_val: "q1 = [104, 111, 119, 32, 116, 111, 32, 102, 105, 120, 32, 97, 32, 108, 101, 97, 107, 121, 32, 102, 97, 117, 99, 101, 116]"
  by (simp add: q1_def asc_def)

lemma q1_lower: "toLowerCase q1 = q1"
  by (simp add: q1_val toLowerCase_def lower_cu_def)

lemma q1_normal: "lowerNormal q1"
  using toLowerCase_lowerNormal [of q1] by (simp only: q1_lower)

lemma q1_info: "matchesIntent \<lparr>patterns = informational_patterns, weight = w\<rparr> q1"
  unfolding matchesIntent_def informational_patterns_def
  apply (simp only: IntentConfig.simps list_ex_Cons_iff list_ex_Nil_iff prod.case)
  apply (rule disjI1)
  apply (simp add: rx_test_Bol_alts q1_val lowerNormal_def lower_cu_def asc_def)
  done

lemma q1_commercial: "\<not> matchesIntent \<lparr>patterns = commercial_patterns, weight = w\<rparr> q1"
  by (simp add: matchesIntent_def commercial_patterns_def rx_test_alts rx_test_Seq_Cls_False
      q1_val lowerNormal_def lower_cu_def asc_def isDigit_def)

lemma q1_transactional: "\<not> matchesIntent \<lparr>patterns = transactional_patterns, weight = w\<rparr> q1"
  by (simp add: matchesIntent_def transactional_patterns_def rx_test_alts
      q1_val lowerNormal_def lower_cu_def asc_def)

lemma q2_val: "q2 = [98, 117, 121, 32, 105, 112, 104, 111, 110, 101, 32, 49, 53, 32, 112, 114, 105, 99, 101]"
  by (simp add: q2_def asc_def)

lemma q2_lower: "toLowerCase q2 = q2"
  by (simp add: q2_val toLowerCase_def lower_cu_def)

lemma q2_info: "\<not> matchesIntent \<lparr>patterns = informational_patterns, weight = w\<rparr> q2"
  by (simp add: matchesIntent_def informational_patterns_def rx_test_alts rx_test_Bol_alts
      rx_test_Lit_Eol suffix_to_prefix q2_val lowerNormal_def lower_cu_def asc_def)

lemma q2_commercial: "matchesIntent \<lparr>patterns = commercial_patterns, weight = w\<rparr> q2"
  unfolding matchesIntent_def commercial_patterns_def
  apply (simp only: IntentConfig.simps list_ex_Cons_iff list_ex_Nil_iff prod.case)
  apply (rule disjI1)
  apply (simp add: rx_test_alts q2_val lowerNormal_def lower_cu_def asc_def)
  done

lemma classify_q1: "classifyIntent q1 = Informational"
  by (simp add: classifyIntent_def INTENT_PATTERNS_def q1_lower q1_info q1_commercial
      q1_transactional)

lemma classify_q2: "classifyIntent q2 = Commercial"
  by (simp add: classifyIntent_def INTENT_PATTERNS_def q2_lower q2_info q2_commercial)

section \<open>Properties of the intent\<close>

lemma classifyIntent_refines: "classifyIntent q = classify_spec q"
proof -
  define s where "s = toLowerCase q"
  define m1 where "m1 = matchesIntent \<lparr>patterns = informational_patterns, weight = 0.8\<rparr> s"
  define m2 where "m2 = matchesIntent \<lparr>patterns = commercial_patterns, weight = 0.9\<rparr> s"
  define m3 where "m3 = matchesIntent \<lparr>patterns = navigational_patterns, weight = 0.7\<rparr> s"
  define m4 where "m4 = matchesIntent \<lparr>patterns = transactional_patterns, weight = 0.85\<rparr> s"
  have c: "classifyIntent q =
      fst (foldl (\<lambda>(bestIntent, bestScore) (category, m, w).
                 if m \<and> w > bestScore then (category, w) else (bestIntent, bestScore))
               (Informational, 0::real)
               [(Informational, m1, 0.8), (Commercial, m2, 0.9), (Navigational, m3, 0.7),
                (Transactional, m4, 0.85)])"
    by (simp add: classifyIntent_def INTENT_PATTERNS_def Let_def s_def m1_def m2_def m3_def m4_def)
  have sp: "matchingCategories q =
      (if m1 then [(Informational, \<lparr>patterns = informational_patterns, weight = 0.8\<rparr>)] else []) @
      (if m2 then [(Commercial, \<lparr>patterns = commercial_patterns, weight = 0.9\<rparr>)] else []) @
      (if m3 then [(Navigational, \<lparr>patterns = navigational_patterns, weight = 0.7\<rparr>)] else []) @
      (if m4 then [(Transactional, \<lparr>patterns = transactional_patterns, weight = 0.85\<rparr>)] else [])"
    by (simp add: matchingCategories_def INTENT_PATTERNS_def s_def m1_def m2_def m3_def m4_def)
  show ?thesis
    unfolding c classify_spec_def sp
    by (cases m1; cases m2; cases m3; cases m4) (simp_all add: Let_def)
qed

text \<open>
  Claim C7. \<open>classifyIntent\<close> returns what the specification selects: among the
  categories with a pattern that matches the lower-cased query the one of the highest
  weight, the first declared among equals, and \<open>Informational\<close> when none matches.
  The weights are 0.8, 0.9, 0.7 and 0.85 in the order of declaration, and the two
  queries of the scenario are classified as the claim says.
\<close>

theorem classifyIntent_selects:
  "classifyIntent q = classify_spec q \<and>
   map (\<lambda>(category, config). (category, weight config)) INTENT_PATTERNS =
     [(Informational, 0.8), (Commercial, 0.9), (Navigational, 0.7), (Transactional, 0.85)] \<and>
   classifyIntent (asc ''how to fix a leaky faucet'') = Informational \<and>
   classifyIntent (asc ''buy iphone 15 price'') = Commercial"
  using classifyIntent_refines [of q] classify_q1 [unfolded q1_def] classify_q2 [unfolded q2_def]
  by (simp add: INTENT_PATTERNS_def)

section \<open>Properties of the topic\<close>

















section \<open>Properties of the similarity\<close>











text \<open>
  A negative similarity: U+0130 is one code unit and its lower case is two, so the
  edit distance to the empty query is 2 over a maximal length of 1.
\<close>

lemma similarity_negative: "calculateAlgorithmicSimilarity [0x130] [] = Num (- 0.2375)"
  by (simp add: calculateAlgorithmicSimilarity_def toLowerCase_def lower_cu_def getNGrams_def
      jaccardSimilarity_def setOf_def trim_def isWhiteSpace_def substr_def Let_def
      getWordTokens_def isTokenSep_def editDistanceSimilarity_def levenshteinDistance_def
      startsWith_def endsWith_def findLongestCommonSubstring_def lcs_scan_def substring_def
      collapseWs.simps numeral_2_eq_2)

section \<open>Properties of the tokens\<close>



section \<open>Properties of the clustering\<close>

lemma foldE_Inr_induct:
  assumes "foldE f s xs = Inr s'" "P s"
    and "\<And>s x s'. P s \<Longrightarrow> x \<in> set xs \<Longrightarrow> f s x = Inr s' \<Longrightarrow> P s'"
  shows "P s'"
  using assms
proof (induction xs arbitrary: s)
  case Nil
  then show ?case by simp
next
  case (Cons x xs)
  from Cons.prems(1) obtain s1 where s1: "f s x = Inr s1" "foldE f s1 xs = Inr s'"
    by (auto split: sum.splits)
  have "P s1" by (rule Cons.prems(3) [OF Cons.prems(2) _ s1(1)]) simp
  moreover have "\<And>s y s'. P s \<Longrightarrow> y \<in> set xs \<Longrightarrow> f s y = Inr s' \<Longrightarrow> P s'"
    using Cons.prems(3) by (meson list.set_intros(2))
  ultimately show ?case using Cons.IH [OF s1(2)] by blast
qed

lemma foldE_Inl_elem:
  assumes "foldE f s xs = Inl e"
  shows "\<exists>s0 x. x \<in> set xs \<and> f s0 x = Inl e"
  using assms
proof (induction xs arbitrary: s)
  case Nil
  then show ?case by simp
next
  case (Cons x xs)
  show ?case
  proof (cases "f s x")
    case (Inl e')
    with Cons.prems have "f s x = Inl e" by simp
    then show ?thesis by (meson list.set_intros(1))
  next
    case (Inr b)
    with Cons.prems have "foldE f b xs = Inl e" by simp
    from Cons.IH [OF this] obtain s0 y where "y \<in> set xs" "f s0 y = Inl e" by blast
    then show ?thesis by (meson list.set_intros(2))
  qed
qed

lemma simCell_error: "simCell similarities allItems a b = Inl e \<Longrightarrow> e = TypeError"
  by (auto simp add: simCell_def split: option.splits if_splits)

lemma getClusterSimilarity_error:
  "getClusterSimilarity c1 c2 similarities allItems = Inl e \<Longrightarrow> e = TypeError"
proof -
  assume "getClusterSimilarity c1 c2 similarities allItems = Inl e"
  from foldE_Inl_elem [OF this [unfolded getClusterSimilarity_def]]
  obtain s0 p where p: "(case p of (item1, item2) \<Rightarrow>
              case simCell similarities allItems item1 item2 of
                Inl e \<Rightarrow> Inl e
              | Inr similarity \<Rightarrow> Inr (js_max s0 similarity)) = Inl e"
    by blast
  obtain a b where ab: "p = (a, b)" by (cases p)
  show ?thesis
  proof (cases "simCell similarities allItems a b")
    case (Inl e')
    with p ab have "e' = e" by simp
    with Inl simCell_error show ?thesis by blast
  next
    case (Inr v)
    with p ab show ?thesis by simp
  qed
qed

lemma findMostSimilar_error:
  "findMostSimilar clusters similarities items = Inl e \<Longrightarrow> e = TypeError"
proof -
  assume "findMostSimilar clusters similarities items = Inl e"
  from foldE_Inl_elem [OF this [unfolded findMostSimilar_def]]
  obtain s0 p where p: "(case s0 of (maxSimilarity, mergeIndices) \<Rightarrow> \<lambda>(i, j).
              case getClusterSimilarity (clusters ! i) (clusters ! j) similarities items of
                Inl e \<Rightarrow> Inl e
              | Inr similarity \<Rightarrow>
                  if js_gt similarity maxSimilarity then Inr (similarity, Some (i, j))
                  else Inr (maxSimilarity, mergeIndices)) p = Inl e"
    by blast
  obtain m0 mi0 where s0: "s0 = (m0, mi0)" by (cases s0)
  obtain i j where ij: "p = (i, j)" by (cases p)
  show ?thesis
  proof (cases "getClusterSimilarity (clusters ! i) (clusters ! j) similarities items")
    case (Inl e')
    with p s0 ij have "e' = e" by simp
    with Inl getClusterSimilarity_error show ?thesis by blast
  next
    case (Inr v)
    with p s0 ij show ?thesis by (simp split: if_splits)
  qed
qed

lemma findMostSimilar_ge:
  assumes "findMostSimilar clusters similarities items = Inr (m, mi)"
  shows "\<exists>v. m = Num v \<and> - 1 \<le> v \<and> (mi = None \<longrightarrow> v = - 1)"
proof -
  let ?P = "\<lambda>(m, mi). \<exists>v. m = Num v \<and> - 1 \<le> v \<and> (mi = None \<longrightarrow> v = - 1)"
  have "?P (m, mi)"
  proof (rule foldE_Inr_induct [where P = ?P, OF assms [unfolded findMostSimilar_def]])
    show "?P (Num (- 1), None)" by simp
  next
    fix s x s'
    assume P: "?P s" and step: "(case s of (maxSimilarity, mergeIndices) \<Rightarrow> \<lambda>(i, j).
              case getClusterSimilarity (clusters ! i) (clusters ! j) similarities items of
                Inl e \<Rightarrow> Inl e
              | Inr similarity \<Rightarrow>
                  if js_gt similarity maxSimilarity then Inr (similarity, Some (i, j))
                  else Inr (maxSimilarity, mergeIndices)) x = Inr s'"
    obtain m0 mi0 where s: "s = (m0, mi0)" by (cases s)
    obtain i j where x: "x = (i, j)" by (cases x)
    from P s obtain v0 where v0: "m0 = Num v0" "- 1 \<le> v0" "mi0 = None \<longrightarrow> v0 = - 1" by auto
    show "?P s'"
    proof (cases "getClusterSimilarity (clusters ! i) (clusters ! j) similarities items")
      case (Inl e)
      with step s x show ?thesis by simp
    next
      case (Inr sim)
      show ?thesis
      proof (cases "js_gt sim m0")
        case True
        then obtain w where "sim = Num w" "w > v0" using v0 by (cases sim) auto
        with step s x Inr True v0 show ?thesis by auto
      next
        case False
        with step s x Inr v0 show ?thesis by auto
      qed
    qed
  qed
  then show ?thesis by simp
qed

lemma clusteringRound_Throw:
  "clusteringRound items similarities threshold clusters = Throw e \<Longrightarrow> e = TypeError"
  unfolding clusteringRound_def
  by (auto split: sum.splits prod.splits if_splits option.splits dest: findMostSimilar_error)

lemma clusteringRound_low:
  assumes "js_le threshold (Num (- 1))"
  shows "clusteringRound items similarities threshold clusters \<noteq> Leave"
proof (cases "findMostSimilar clusters similarities items")
  case (Inl e)
  then show ?thesis by (simp add: clusteringRound_def)
next
  case (Inr r)
  obtain m mi where r: "r = (m, mi)" by (cases r)
  from findMostSimilar_ge [OF Inr [unfolded r]] obtain v where v: "m = Num v" "- 1 \<le> v" by blast
  from assms obtain t where t: "threshold = Num t" "t \<le> - 1" by (cases threshold) auto
  have "\<not> js_lt m threshold" using v t by simp
  then show ?thesis using Inr r by (simp add: clusteringRound_def split: option.splits)
qed

lemma hcLoop_low:
  "js_le threshold (Num (- 1)) \<Longrightarrow> hcLoop items similarities threshold clusters = Inl TypeError"
proof (induction items similarities threshold clusters rule: hcLoop.induct)
  case (1 items similarities threshold clusters)
  show ?case
  proof (cases "clusteringRound items similarities threshold clusters")
    case Leave
    with clusteringRound_low [OF "1.prems"] show ?thesis by blast
  next
    case (Throw e)
    with clusteringRound_Throw have "e = TypeError" by blast
    with Throw show ?thesis by (simp add: hcLoop.simps [of items similarities threshold clusters])
  next
    case (Merge clusters')
    with "1.IH" [OF Merge "1.prems"] show ?thesis
      by (simp add: hcLoop.simps [of items similarities threshold clusters])
  qed
qed

lemma indexOf_Some: "x \<in> set xs \<Longrightarrow> \<exists>i. indexOf xs x = Some i \<and> i < length xs \<and> xs ! i = x"
  by (induction xs) auto

lemma indexOf_None: "x \<notin> set xs \<Longrightarrow> indexOf xs x = None"
  by (induction xs) auto

lemma simCell_Inr:
  "length items \<le> length similarities \<Longrightarrow> a \<in> set items \<Longrightarrow>
     \<exists>v. simCell similarities items a b = Inr v"
  using indexOf_Some [of a items] by (auto simp add: simCell_def split: option.splits)

lemma foldE_total:
  "(\<And>s x. x \<in> set xs \<Longrightarrow> \<exists>s'. f s x = Inr s') \<Longrightarrow> \<exists>s'. foldE f s xs = Inr s'"
proof (induction xs arbitrary: s)
  case Nil
  then show ?case by simp
next
  case (Cons x xs)
  from Cons.prems [of x s] obtain s1 where s1: "f s x = Inr s1" by auto
  have "\<exists>s'. foldE f s1 xs = Inr s'" by (rule Cons.IH) (simp add: Cons.prems)
  with s1 show ?case by simp
qed

lemma getClusterSimilarity_Inr:
  assumes "length items \<le> length similarities" "set c1 \<subseteq> set items"
  shows "\<exists>v. getClusterSimilarity c1 c2 similarities items = Inr v"
  unfolding getClusterSimilarity_def
proof (rule foldE_total)
  fix s :: jsnum and x :: "ref \<times> ref"
  assume x: "x \<in> set (List.product c1 c2)"
  obtain a b where ab: "x = (a, b)" by (cases x)
  with x assms(2) have "a \<in> set items" by auto
  from simCell_Inr [OF assms(1) this, of b] obtain v where "simCell similarities items a b = Inr v"
    by blast
  then show "\<exists>s'. (case x of (item1, item2) \<Rightarrow>
              case simCell similarities items item1 item2 of
                Inl e \<Rightarrow> Inl e
              | Inr similarity \<Rightarrow> Inr (js_max s similarity)) = Inr s'"
    using ab by simp
qed

lemma findMostSimilar_Inr:
  assumes "length items \<le> length similarities" "\<forall>c\<in>set clusters. set c \<subseteq> set items"
  shows "\<exists>r. findMostSimilar clusters similarities items = Inr r"
  unfolding findMostSimilar_def
proof (rule foldE_total)
  fix s :: "jsnum \<times> (nat \<times> nat) option" and x :: "nat \<times> nat"
  assume x: "x \<in> set (indexPairs (length clusters))"
  obtain i j where ij: "x = (i, j)" by (cases x)
  obtain m mi where s: "s = (m, mi)" by (cases s)
  from x ij have "i < length clusters" by (simp add: indexPairs_iff)
  then have "set (clusters ! i) \<subseteq> set items" using assms(2) by simp
  from getClusterSimilarity_Inr [OF assms(1) this, of "clusters ! j"]
  obtain v where "getClusterSimilarity (clusters ! i) (clusters ! j) similarities items = Inr v"
    by blast
  then show "\<exists>s'. (case s of (maxSimilarity, mergeIndices) \<Rightarrow> \<lambda>(i, j).
              case getClusterSimilarity (clusters ! i) (clusters ! j) similarities items of
                Inl e \<Rightarrow> Inl e
              | Inr similarity \<Rightarrow>
                  if js_gt similarity maxSimilarity then Inr (similarity, Some (i, j))
                  else Inr (maxSimilarity, mergeIndices)) x = Inr s'"
    using ij s by simp
qed

lemma clusteringRound_high:
  assumes "js_gt threshold (Num (- 1))" "length items \<le> length similarities"
    "\<forall>c\<in>set clusters. set c \<subseteq> set items"
  shows "clusteringRound items similarities threshold clusters \<noteq> Throw e"
proof -
  from findMostSimilar_Inr [OF assms(2,3)] obtain m mi
    where r: "findMostSimilar clusters similarities items = Inr (m, mi)" by (metis surj_pair)
  from findMostSimilar_ge [OF r] obtain v where v: "m = Num v" "- 1 \<le> v" "mi = None \<longrightarrow> v = - 1"
    by blast
  from assms(1) obtain t where t: "threshold = Num t" "- 1 < t" by (cases threshold) auto
  show ?thesis
  proof (cases mi)
    case None
    with v t have "js_lt m threshold" by simp
    with r show ?thesis by (simp add: clusteringRound_def)
  next
    case (Some p)
    with r show ?thesis by (cases p) (simp add: clusteringRound_def)
  qed
qed

lemma removed_mset:
  "mset (map snd (filter (\<lambda>(index, c). index \<noteq> i \<and> index \<noteq> j) (enumerate k cs)))
     + (if k \<le> i \<and> i < k + length cs then {#cs ! (i - k)#} else {#})
     + (if k \<le> j \<and> j < k + length cs \<and> j \<noteq> i then {#cs ! (j - k)#} else {#}) = mset cs"
proof (induction cs arbitrary: k)
  case Nil
  then show ?case by simp
next
  case (Cons c cs)
  show ?case using Cons.IH [of "Suc k"] by (auto simp add: Suc_diff_le add_mset_commute)
qed

lemma mergeClusters_mset:
  assumes "i < j" "j < length cs"
  shows "mset (mergeClusters cs i j) + {#cs ! i, cs ! j#} = mset cs + {#cs ! i @ cs ! j#}"
  using removed_mset [where i = i and j = j and cs = cs and k = 0] assms
  by (simp add: mergeClusters_def)

lemma mset_concat_sum: "mset (concat xss) = sum_mset (image_mset mset (mset xss))"
  by (induction xss) simp_all

lemma mergeClusters_concat:
  assumes "i < j" "j < length cs"
  shows "mset (concat (mergeClusters cs i j)) = mset (concat cs)"
proof -
  have "sum_mset (image_mset mset (mset (mergeClusters cs i j) + {#cs ! i, cs ! j#})) =
        sum_mset (image_mset mset (mset cs + {#cs ! i @ cs ! j#}))"
    by (simp only: mergeClusters_mset [OF assms])
  then show ?thesis by (simp add: mset_concat_sum)
qed

lemma mergeClusters_set:
  assumes "i < j" "j < length cs"
  shows "set (mergeClusters cs i j) \<subseteq> insert (cs ! i @ cs ! j) (set cs)"
proof -
  have "set (map snd (filter (\<lambda>(index, c). index \<noteq> i \<and> index \<noteq> j) (enumerate 0 cs))) \<subseteq> set cs"
    by (auto simp add: in_set_enumerate_eq)
  then show ?thesis by (auto simp add: mergeClusters_def)
qed

lemma clusteringRound_MergeD:
  assumes "clusteringRound items similarities threshold clusters = Merge clusters'"
  shows "\<exists>m i j. findMostSimilar clusters similarities items = Inr (m, Some (i, j)) \<and>
           \<not> js_lt m threshold \<and> i < j \<and> j < length clusters \<and> clusters' = mergeClusters clusters i j"
  using assms unfolding clusteringRound_def
  by (auto split: sum.splits prod.splits if_splits option.splits dest: findMostSimilar_indices)

lemma clusteringRound_Merge_inv:
  assumes "clusteringRound items similarities threshold clusters = Merge clusters'"
    "\<forall>c\<in>set clusters. c \<noteq> [] \<and> set c \<subseteq> set items"
  shows "\<forall>c\<in>set clusters'. c \<noteq> [] \<and> set c \<subseteq> set items"
proof -
  from clusteringRound_MergeD [OF assms(1)] obtain i j
    where ij: "i < j" "j < length clusters" "clusters' = mergeClusters clusters i j" by blast
  then have "clusters ! i \<in> set clusters" "clusters ! j \<in> set clusters" by simp_all
  with assms(2) have "clusters ! i @ clusters ! j \<noteq> [] \<and> set (clusters ! i @ clusters ! j) \<subseteq> set items"
    by auto
  with assms(2) mergeClusters_set [OF ij(1,2)] ij(3) show ?thesis by blast
qed

lemma hcLoop_high:
  "js_gt threshold (Num (- 1)) \<Longrightarrow> length items \<le> length similarities \<Longrightarrow>
   \<forall>c\<in>set clusters. c \<noteq> [] \<and> set c \<subseteq> set items \<Longrightarrow>
   \<exists>r. hcLoop items similarities threshold clusters = Inr r"
proof (induction items similarities threshold clusters rule: hcLoop.induct)
  case (1 items similarities threshold clusters)
  show ?case
  proof (cases "clusteringRound items similarities threshold clusters")
    case Leave
    then show ?thesis by (simp add: hcLoop.simps [of items similarities threshold clusters])
  next
    case (Throw e)
    moreover have "\<forall>c\<in>set clusters. set c \<subseteq> set items" using "1.prems"(3) by blast
    ultimately show ?thesis using clusteringRound_high [OF "1.prems"(1,2)] by blast
  next
    case (Merge clusters')
    from clusteringRound_Merge_inv [OF Merge "1.prems"(3)]
    have "\<exists>r. hcLoop items similarities threshold clusters' = Inr r"
      using "1.IH" [OF Merge "1.prems"(1,2)] by blast
    with Merge show ?thesis by (simp add: hcLoop.simps [of items similarities threshold clusters])
  qed
qed

lemma hcLoop_mset:
  "hcLoop items similarities threshold clusters = Inr r \<Longrightarrow> mset (concat r) = mset (concat clusters)"
proof (induction items similarities threshold clusters rule: hcLoop.induct)
  case (1 items similarities threshold clusters)
  show ?case
  proof (cases "clusteringRound items similarities threshold clusters")
    case Leave
    with "1.prems" show ?thesis
      by (simp add: hcLoop.simps [of items similarities threshold clusters])
  next
    case (Throw e)
    with "1.prems" show ?thesis
      by (simp add: hcLoop.simps [of items similarities threshold clusters])
  next
    case (Merge clusters')
    with "1.prems" have r: "hcLoop items similarities threshold clusters' = Inr r"
      by (simp add: hcLoop.simps [of items similarities threshold clusters])
    from clusteringRound_MergeD [OF Merge] obtain i j
      where ij: "i < j" "j < length clusters" "clusters' = mergeClusters clusters i j" by blast
    have "mset (concat clusters') = mset (concat clusters)"
      using mergeClusters_concat [OF ij(1,2)] ij(3) by simp
    with "1.IH" [OF Merge r] show ?thesis by simp
  qed
qed

lemma hcLoop_inv:
  "hcLoop items similarities threshold clusters = Inr r \<Longrightarrow>
   \<forall>c\<in>set clusters. c \<noteq> [] \<and> set c \<subseteq> set items \<Longrightarrow>
   \<forall>c\<in>set r. c \<noteq> [] \<and> set c \<subseteq> set items"
proof (induction items similarities threshold clusters rule: hcLoop.induct)
  case (1 items similarities threshold clusters)
  show ?case
  proof (cases "clusteringRound items similarities threshold clusters")
    case Leave
    with "1.prems"(1) have "r = clusters"
      by (simp add: hcLoop.simps [of items similarities threshold clusters])
    with "1.prems"(2) show ?thesis by blast
  next
    case (Throw e)
    with "1.prems"(1) show ?thesis
      by (simp add: hcLoop.simps [of items similarities threshold clusters])
  next
    case (Merge clusters')
    with "1.prems"(1) have r: "hcLoop items similarities threshold clusters' = Inr r"
      by (simp add: hcLoop.simps [of items similarities threshold clusters])
    from "1.IH" [OF Merge r clusteringRound_Merge_inv [OF Merge "1.prems"(2)]]
    show ?thesis .
  qed
qed

lemma hcLoop_reach:
  "hcLoop items similarities threshold clusters = Inr r \<Longrightarrow>
   hcReach items similarities threshold clusters \<Longrightarrow>
   hcReach items similarities threshold r \<and> clusteringRound items similarities threshold r = Leave"
proof (induction items similarities threshold clusters rule: hcLoop.induct)
  case (1 items similarities threshold clusters)
  show ?case
  proof (cases "clusteringRound items similarities threshold clusters")
    case Leave
    with "1.prems"(1) have "r = clusters"
      by (simp add: hcLoop.simps [of items similarities threshold clusters])
    with "1.prems"(2) Leave show ?thesis by blast
  next
    case (Throw e)
    with "1.prems"(1) show ?thesis
      by (simp add: hcLoop.simps [of items similarities threshold clusters])
  next
    case (Merge clusters')
    with "1.prems"(1) have r: "hcLoop items similarities threshold clusters' = Inr r"
      by (simp add: hcLoop.simps [of items similarities threshold clusters])
    from "1.IH" [OF Merge r hcReach.merged [OF "1.prems"(2) Merge]]
    show ?thesis .
  qed
qed

lemma createSimilarityMatrix_length: "length (createSimilarityMatrix h kws) = length kws"
  by (simp add: createSimilarityMatrix_def)

lemma clustering_returns:
  assumes "js_gt threshold (Num (- 1))"
  shows "\<exists>r. performHierarchicalClustering items (createSimilarityMatrix h items) threshold = Inr r"
  unfolding performHierarchicalClustering_def
  by (rule hcLoop_high [OF assms]) (simp_all add: createSimilarityMatrix_length)

lemma clustering_result:
  assumes "performHierarchicalClustering items similarities threshold = Inr r"
  shows "mset (concat r) = mset items \<and> (\<forall>c\<in>set r. c \<noteq> [] \<and> set c \<subseteq> set items) \<and>
         hcReach items similarities threshold r"
proof -
  have c: "concat (map (\<lambda>item. [item]) items) = items" by (induction items) simp_all
  note l = assms [unfolded performHierarchicalClustering_def]
  have "mset (concat r) = mset items" using hcLoop_mset [OF l] by (simp add: c)
  moreover have "\<forall>c\<in>set r. c \<noteq> [] \<and> set c \<subseteq> set items"
    by (rule hcLoop_inv [OF l]) auto
  moreover have "hcReach items similarities threshold r"
    using hcLoop_reach [OF l hcReach.initial] by blast
  ultimately show ?thesis by blast
qed

lemma clustering_low:
  "js_le threshold (Num (- 1)) \<Longrightarrow> performHierarchicalClustering items similarities threshold = Inl TypeError"
  by (simp add: performHierarchicalClustering_def hcLoop_low)

lemma processBucket_low:
  assumes "js_le (similarityThreshold opts) (Num (- 1))" "2 \<le> length (snd bucket)"
  shows "processBucket RX h opts state bucket = Inl TypeError"
  using assms clustering_low [OF assms(1)]
  by (cases state; cases bucket) (simp add: processBucket_def)

lemma processBucket_low_cases:
  assumes "js_le (similarityThreshold opts) (Num (- 1))"
  shows "processBucket RX h opts state bucket = Inl TypeError \<or>
         (length (snd bucket) < 2 \<and> (\<exists>s'. processBucket RX h opts state bucket = Inr s'))"
proof (cases "length (snd bucket) < 2")
  case True
  then show ?thesis by (cases state; cases bucket) (simp add: processBucket_def)
next
  case False
  then have "2 \<le> length (snd bucket)" by simp
  from processBucket_low [OF assms this] show ?thesis by blast
qed

lemma buckets_low:
  assumes "js_le (similarityThreshold opts) (Num (- 1))"
  shows "list_ex (\<lambda>bucket. 2 \<le> length (snd bucket)) buckets \<Longrightarrow>
         foldE (processBucket RX h opts) state buckets = Inl TypeError"
proof (induction buckets arbitrary: state)
  case Nil
  then show ?case by simp
next
  case (Cons b bs)
  show ?case
  proof (cases "2 \<le> length (snd b)")
    case True
    from processBucket_low [OF assms True] show ?thesis by simp
  next
    case False
    with Cons.prems have rest: "list_ex (\<lambda>bucket. 2 \<le> length (snd bucket)) bs" by simp
    have "\<exists>s'. processBucket RX h opts state b = Inr s'"
      using False by (cases state; cases b) (simp add: processBucket_def)
    then obtain s' where "processBucket RX h opts state b = Inr s'" by blast
    with Cons.IH [OF rest, of s'] show ?thesis by simp
  qed
qed

section \<open>Evaluating the similarity\<close>

lemma dp_lev_unfold:
  "dp_lev s1 s2 i j =
     (if i = 0 then j else if j = 0 then i
      else if s1 ! (i - 1) = s2 ! (j - 1) then dp_lev s1 s2 (i - 1) (j - 1)
      else min (dp_lev s1 s2 (i - 1) j + 1)
             (min (dp_lev s1 s2 i (j - 1) + 1) (dp_lev s1 s2 (i - 1) (j - 1) + 1)))"
  by (cases i; cases j) simp_all

lemma dp_lcs_unfold:
  "dp_lcs s1 s2 i j =
     (if i = 0 \<or> j = 0 then 0
      else if s1 ! (i - 1) = s2 ! (j - 1) then dp_lcs s1 s2 (i - 1) (j - 1) + 1 else 0)"
  by (cases i; cases j) simp_all

lemma paren_val: "asc ''(ab (ab'' = [40, 97, 98, 32, 40, 97, 98] \<and> asc ''(ab'' = [40, 97, 98]"
  by (simp add: asc_def)

lemma paren_lev: "levenshteinDistance [40, 97, 98, 32, 40, 97, 98] [40, 97, 98] = 4"
  by (simp add: levenshteinDistance_def dp_lev_unfold)

lemma paren_lcs: "findLongestCommonSubstring [40, 97, 98, 32, 40, 97, 98] [40, 97, 98] = [40, 97, 98]"
  by (simp add: findLongestCommonSubstring_def lcs_scan_def substring_def dp_lcs_unfold)

lemma windows_short: "length s < n \<Longrightarrow> windows n s = []"
  by (cases s) simp_all

lemma windows_upt:
  "0 < n \<Longrightarrow> windows n s = (if length s < n then [] else map (\<lambda>i. take n (drop i s)) [0..<Suc (length s - n)])"
proof (induction s)
  case Nil
  then show ?case by simp
next
  case (Cons c cs)
  show ?case
  proof (cases "length (c # cs) < n")
    case True
    then show ?thesis by simp
  next
    case False
    have u: "[0..<Suc (length (c # cs) - n)] = 0 # map Suc [0..<length (c # cs) - n]"
      by (simp add: upt_conv_Cons map_Suc_upt del: upt_Suc)
    show ?thesis
    proof (cases "length cs < n")
      case True
      with False have "length (c # cs) = n" by simp
      with True False Cons.prems show ?thesis by (simp add: windows_short)
    next
      case False2: False
      then have "Suc (length cs - n) = length (c # cs) - n" by simp
      with False False2 Cons show ?thesis
        unfolding u by (simp add: comp_def del: upt_Suc)
    qed
  qed
qed

lemma getNGrams_windows:
  "0 < n \<Longrightarrow> getNGrams str n = setOf (windows n ([0x23] @ trim (collapseWs (toLowerCase str)) @ [0x23]))"
  by (simp add: getNGrams_def Let_def windows_upt substr_def setOf_def del: windows.simps)

lemma paren_bigrams: "jaccardSimilarity (getNGrams [40, 97, 98, 32, 40, 97, 98] 2) (getNGrams [40, 97, 98] 2) = Num (2 / 3)"
  by (simp add: toLowerCase_def lower_cu_def getNGrams_windows jaccardSimilarity_def setOf_def
      trim_def isWhiteSpace_def Let_def)

lemma paren_trigrams: "jaccardSimilarity (getNGrams [40, 97, 98, 32, 40, 97, 98] 3) (getNGrams [40, 97, 98] 3) = Num (1 / 2)"
  by (simp add: toLowerCase_def lower_cu_def getNGrams_windows jaccardSimilarity_def setOf_def
      trim_def isWhiteSpace_def Let_def)

lemma paren_tokens: "getWordTokens [40, 97, 98, 32, 40, 97, 98] = [[97, 98], [97, 98]] \<and> getWordTokens [40, 97, 98] = [[97, 98]]"
  by (simp add: toLowerCase_def lower_cu_def getWordTokens_def isTokenSep_def isWhiteSpace_def)

lemma paren_token_sim: "jaccardSimilarity [[97, 98], [97, 98]] [[97, 98 :: nat]] = Num 1"
  by (simp add: jaccardSimilarity_def setOf_def)

lemma paren_sim:
  "calculateSimilarity (asc ''(ab (ab'') (asc ''(ab'') = Num (197 / 336)"
  unfolding calculateSimilarity_def calculateAlgorithmicSimilarity_def
  by (simp add: paren_val paren_bigrams paren_trigrams paren_tokens paren_token_sim
      editDistanceSimilarity_def paren_lev paren_lcs Let_def startsWith_def endsWith_def
      toLowerCase_def lower_cu_def)

lemma includesStr_occurs: "includesStr s p \<longleftrightarrow> occurs p s"
proof -
  have "set [0..<Suc (length s)] = {i. i \<le> length s}" by auto
  then show ?thesis by (simp add: includesStr_def list_ex_iff occurs_iff take_eq_prefix)
qed

lemma commonSearch_found:
  "\<not> len < 3 \<Longrightarrow> candidatesAt kws firstKeyword len \<noteq> [] \<Longrightarrow>
     commonSearch kws firstKeyword len = candidatesAt kws firstKeyword len"
  by (simp add: commonSearch.simps [of kws firstKeyword len] Let_def)

lemma commonSearch_next:
  "\<not> len < 3 \<Longrightarrow> candidatesAt kws firstKeyword len = [] \<Longrightarrow>
     commonSearch kws firstKeyword len = commonSearch kws firstKeyword (len - 1)"
  by (simp add: commonSearch.simps [of kws firstKeyword len] Let_def)

lemma paren_candidates:
  "candidatesAt [[40, 97, 98, 32, 40, 97, 98], [40, 97, 98]] [40, 97, 98, 32, 40, 97, 98] 7 = [] \<and>
   candidatesAt [[40, 97, 98, 32, 40, 97, 98], [40, 97, 98]] [40, 97, 98, 32, 40, 97, 98] 6 = [] \<and>
   candidatesAt [[40, 97, 98, 32, 40, 97, 98], [40, 97, 98]] [40, 97, 98, 32, 40, 97, 98] 5 = [] \<and>
   candidatesAt [[40, 97, 98, 32, 40, 97, 98], [40, 97, 98]] [40, 97, 98, 32, 40, 97, 98] 4 = [] \<and>
   candidatesAt [[40, 97, 98, 32, 40, 97, 98], [40, 97, 98]] [40, 97, 98, 32, 40, 97, 98] 3 =
     [[40, 97, 98], [40, 97, 98]]"
  by (simp add: candidatesAt_def includesStr_occurs toLowerCase_def lower_cu_def substring_def
      onlyDigitsSeps_def isDigit_def isWhiteSpace_def Let_def)

lemma paren_search:
  "commonSearch [[40, 97, 98, 32, 40, 97, 98], [40, 97, 98]] [40, 97, 98, 32, 40, 97, 98] 7 =
     [[40, 97, 98], [40, 97, 98]]"
  using paren_candidates
  by (simp add: commonSearch_next commonSearch_found)

lemma paren_common:
  "findCommonSubstrings RegExp_i [asc ''(ab (ab'', asc ''(ab''] = Inl SyntaxError"
proof -
  let ?kws = "[[40, 97, 98, 32, 40, 97, 98], [40, 97, 98 :: nat]]"
  have lc: "toLowerCase (?kws ! 0) = [40, 97, 98, 32, 40, 97, 98]"
    by (simp add: toLowerCase_def lower_cu_def)
  have len: "min (length [40, 97, 98, 32, 40, 97, 98 :: nat]) 20 = 7" by simp
  have cs: "commonSearch ?kws (toLowerCase (?kws ! 0)) (min (length (toLowerCase (?kws ! 0))) 20) =
      [[40, 97, 98], [40, 97, 98]]"
    by (simp only: lc len paren_search)
  have "findCommonSubstrings RegExp_i ?kws = Inl SyntaxError"
    unfolding findCommonSubstrings_def Let_def cs
    by (simp add: sortCandidates_def trim_def isWhiteSpace_def isWord_def wordPattern_def
        RegExp_i_def Let_def)
  then show ?thesis by (simp only: paren_val)
qed

lemma paren_topic:
  "extractGroupTopic RegExp_i [asc ''(ab (ab'', asc ''(ab''] = Inl SyntaxError"
  by (simp add: extractGroupTopic_def paren_common)

lemma two_items_merge:
  assumes "t \<le> v" "0 \<le> v" "- 1 < t" "i \<noteq> j"
  shows "performHierarchicalClustering [i, j] [[Num 1, Num v], [Num v, Num 1]] (Num t) = Inr [[i, j]]"
proof -
  let ?M = "[[Num 1, Num v], [Num v, Num 1]]"
  have f0: "findMostSimilar [[i], [j]] ?M [i, j] = Inr (Num v, Some (0, 1))"
    using assms by (simp add: findMostSimilar_def indexPairs_def getClusterSimilarity_def simCell_def)
  have r0: "clusteringRound [i, j] ?M (Num t) [[i], [j]] = Merge [[i, j]]"
    using assms by (simp add: clusteringRound_def f0 mergeClusters_def)
  have f1: "findMostSimilar [[i, j]] ?M [i, j] = Inr (Num (- 1), None)"
    by (simp add: findMostSimilar_def indexPairs_def)
  have r1: "clusteringRound [i, j] ?M (Num t) [[i, j]] = Leave"
    using assms by (simp add: clusteringRound_def f1)
  show ?thesis
    by (simp add: performHierarchicalClustering_def hcLoop.simps [of _ _ _ "[[i], [j]]"]
        hcLoop.simps [of _ _ _ "[[i, j]]"] r0 r1)
qed

section \<open>The example of an unterminated group\<close>

lemma rx_test_Bol: "rx_test ci (Seq Bol r) s \<longleftrightarrow> rx_ends ci r s 0 \<noteq> []"
proof -
  have "set [0..<Suc (length s)] = {i. i \<le> length s}" by auto
  then show ?thesis by (auto simp add: rx_test_def list_ex_iff)
qed

lemma classify_default:
  assumes "\<not> matchesIntent \<lparr>patterns = commercial_patterns, weight = 0.9\<rparr> (toLowerCase q)"
    "\<not> matchesIntent \<lparr>patterns = navigational_patterns, weight = 0.7\<rparr> (toLowerCase q)"
    "\<not> matchesIntent \<lparr>patterns = transactional_patterns, weight = 0.85\<rparr> (toLowerCase q)"
  shows "classifyIntent q = Informational"
  using assms
  by (cases "matchesIntent \<lparr>patterns = informational_patterns, weight = 0.8\<rparr> (toLowerCase q)")
     (simp_all add: classifyIntent_def INTENT_PATTERNS_def Let_def)

lemma paren_long_lower: "toLowerCase (asc ''(ab (ab'') = [40, 97, 98, 32, 40, 97, 98]"
  by (simp add: asc_def toLowerCase_def lower_cu_def)

lemma paren_short_lower: "toLowerCase (asc ''(ab'') = [40, 97, 98]"
  by (simp add: asc_def toLowerCase_def lower_cu_def)

lemma paren_long_commercial:
  "\<not> matchesIntent \<lparr>patterns = commercial_patterns, weight = w\<rparr> [40, 97, 98, 32, 40, 97, 98]"
  by (simp add: matchesIntent_def commercial_patterns_def rx_test_alts rx_test_Seq_Cls_False
      lowerNormal_def lower_cu_def asc_def isDigit_def)

lemma paren_long_navigational:
  "\<not> matchesIntent \<lparr>patterns = navigational_patterns, weight = w\<rparr> [40, 97, 98, 32, 40, 97, 98]"
  by (simp add: matchesIntent_def navigational_patterns_def rx_test_alts rx_test_Bol
      lowerNormal_def lower_cu_def asc_def eqs_def)

lemma paren_long_transactional:
  "\<not> matchesIntent \<lparr>patterns = transactional_patterns, weight = w\<rparr> [40, 97, 98, 32, 40, 97, 98]"
  by (simp add: matchesIntent_def transactional_patterns_def rx_test_alts
      lowerNormal_def lower_cu_def asc_def)

lemma paren_short_commercial:
  "\<not> matchesIntent \<lparr>patterns = commercial_patterns, weight = w\<rparr> [40, 97, 98]"
  by (simp add: matchesIntent_def commercial_patterns_def rx_test_alts rx_test_Seq_Cls_False
      lowerNormal_def lower_cu_def asc_def isDigit_def)

lemma paren_short_navigational:
  "\<not> matchesIntent \<lparr>patterns = navigational_patterns, weight = w\<rparr> [40, 97, 98]"
  by (simp add: matchesIntent_def navigational_patterns_def rx_test_alts rx_test_Bol
      lowerNormal_def lower_cu_def asc_def eqs_def)

lemma paren_short_transactional:
  "\<not> matchesIntent \<lparr>patterns = transactional_patterns, weight = w\<rparr> [40, 97, 98]"
  by (simp add: matchesIntent_def transactional_patterns_def rx_test_alts
      lowerNormal_def lower_cu_def asc_def)

lemma paren_classify:
  "classifyIntent (asc ''(ab (ab'') = Informational \<and> classifyIntent (asc ''(ab'') = Informational"
  by (simp add: classify_default paren_long_lower paren_short_lower paren_long_commercial
      paren_long_navigational paren_long_transactional paren_short_commercial
      paren_short_navigational paren_short_transactional)

lemma paren_buckets:
  "groupBySearchIntent heapParen [2, 3] =
     [(Some Informational, [2, 3]), (Some Commercial, []), (Some Navigational, []),
      (Some Transactional, [])]"
  by (simp add: groupBySearchIntent_def heapParen_def recordOf_def paren_classify)

lemma paren_matrix:
  "createSimilarityMatrix heapParen [2, 3] = [[Num 1, Num (197 / 336)], [Num (197 / 336), Num 1]]"
  by (simp add: createSimilarityMatrix_def heapParen_def recordOf_def paren_sim)

lemma paren_clusters:
  "performHierarchicalClustering [2, 3] (createSimilarityMatrix heapParen [2, 3]) (Num (1 / 2)) = Inr [[2, 3]]"
  unfolding paren_matrix by (rule two_items_merge) simp_all

lemma paren_collect: "collectGroups RegExp_i heapParen [2, 3] defaultOptions = Inl SyntaxError"
  by (simp add: collectGroups_def defaultOptions_def paren_buckets processBucket_def
      paren_clusters processCluster_def heapParen_def recordOf_def paren_topic)

section \<open>Properties of the grouping\<close>

lemma groupKeywords_low:
  assumes "js_le (similarityThreshold opts) (Num (- 1))"
    "list_ex (\<lambda>bucket. 2 \<le> length (snd bucket))
       (if groupByIntent opts then groupBySearchIntent h kd else [(None, kd)])"
  shows "groupKeywords RX h (Some kd) opts = Inl TypeError"
proof -
  have "kd \<noteq> []"
  proof
    assume "kd = []"
    with assms(2) show False by (simp add: groupBySearchIntent_def split: if_splits)
  qed
  moreover have "collectGroups RX h kd opts = Inl TypeError"
    unfolding collectGroups_def by (rule buckets_low [OF assms])
  ultimately show ?thesis by (simp add: groupKeywords_def)
qed

text \<open>
  Claim C10, as the code has it. With a threshold above \<open>-1\<close> the merge loop ends
  without an error on every list of records. With a threshold of \<open>-1\<close> or less and a
  bucket of at least two records \<open>groupKeywords\<close> throws a \<open>TypeError\<close>: the loop
  never leaves by its test and ends by spreading \<open>clusters[-1]\<close>.
\<close>

theorem threshold_guard:
  "(js_gt threshold (Num (- 1)) \<longrightarrow>
      (\<exists>r. performHierarchicalClustering items (createSimilarityMatrix h items) threshold = Inr r)) \<and>
   (js_le (similarityThreshold opts) (Num (- 1)) \<longrightarrow>
    list_ex (\<lambda>bucket. 2 \<le> length (snd bucket))
      (if groupByIntent opts then groupBySearchIntent h' kd else [(None, kd)]) \<longrightarrow>
      groupKeywords RX h' (Some kd) opts = Inl TypeError)"
  using clustering_returns [of threshold items h] groupKeywords_low [of opts h' kd RX] by blast

theorem threshold_guard_witness:
  "(\<exists>r. performHierarchicalClustering [2, 3] (createSimilarityMatrix heapParen [2, 3]) (Num (1 / 2)) = Inr r) \<and>
   groupKeywords RegExp_i heapParen (Some [2, 3])
     (defaultOptions\<lparr>similarityThreshold := Num (- 1), groupByIntent := False\<rparr>) = Inl TypeError"
  using threshold_guard [of "Num (1 / 2)" "[2, 3]" heapParen
      "defaultOptions\<lparr>similarityThreshold := Num (- 1), groupByIntent := False\<rparr>" heapParen "[2, 3]" RegExp_i]
  by (simp add: defaultOptions_def)

text \<open>
  Claim C10 as it is stated fails: with the default threshold \<open>0.5\<close> the two queries
  \<open>(ab (ab\<close> and \<open>(ab\<close> are merged, the search for their topic builds a regular
  expression from the candidate \<open>(ab\<close>, and \<open>groupKeywords\<close> throws a \<open>SyntaxError\<close>.
\<close>

theorem groupKeywords_syntax_error:
  "groupKeywords RegExp_i heapParen (Some [2, 3]) defaultOptions = Inl SyntaxError \<and>
   js_gt (similarityThreshold defaultOptions) (Num (- 1))"
  by (simp add: groupKeywords_def paren_collect) (simp add: defaultOptions_def)

lemma processCluster_content:
  assumes "processCluster RX h opts key state cluster = Inr state'"
  shows "content state' = content state + mset cluster \<and> (sizesOk (fst state) \<longrightarrow> sizesOk (fst state'))"
proof -
  obtain fg pool where st: "state = (fg, pool)" by (cases state)
  show ?thesis
  proof (cases "int (length cluster) \<ge> minGroupSize opts")
    case True
    with assms st obtain tp where "extractGroupTopic RX (map (\<lambda>item. query (h item)) cluster) = Inr tp"
      and "state' = (fg @ [\<lparr>gid = length fg + 1, topic = tp,
                         intent = (case key of Some bucketIntent \<Rightarrow> bucketIntent
                                   | None \<Rightarrow> classifyIntent (query (h (cluster ! 0)))),
                         keywords = cluster, metrics = calculateGroupMetrics h cluster,
                         gsize = length cluster, expanded = False\<rparr>], pool)"
      by (auto simp add: processCluster_def split: sum.splits)
    then show ?thesis using st by (simp add: content_def sizesOk_def)
  next
    case False
    with assms st have "state' = (fg, pool @ cluster)" by (auto simp add: processCluster_def)
    then show ?thesis using st by (simp add: content_def)
  qed
qed

lemma clusters_content:
  "foldE (processCluster RX h opts key) state clusters = Inr state' \<Longrightarrow>
     content state' = content state + mset (concat clusters) \<and>
     (sizesOk (fst state) \<longrightarrow> sizesOk (fst state'))"
proof (induction clusters arbitrary: state)
  case Nil
  then show ?case by simp
next
  case (Cons c cs)
  from Cons.prems obtain s1 where s1: "processCluster RX h opts key state c = Inr s1"
    "foldE (processCluster RX h opts key) s1 cs = Inr state'"
    by (auto split: sum.splits)
  from processCluster_content [OF s1(1)] Cons.IH [OF s1(2)] show ?case by simp
qed

lemma processBucket_content:
  assumes "processBucket RX h opts state bucket = Inr state'"
  shows "content state' = content state + mset (snd bucket) \<and>
         (sizesOk (fst state) \<longrightarrow> sizesOk (fst state'))"
proof -
  obtain fg pool where st: "state = (fg, pool)" by (cases state)
  obtain key kws where b: "bucket = (key, kws)" by (cases bucket)
  show ?thesis
  proof (cases "length kws < 2")
    case True
    with assms st b have "state' = (fg, pool @ kws)" by (simp add: processBucket_def)
    then show ?thesis using st b by (simp add: content_def)
  next
    case False
    with assms st b obtain cs where cs:
      "performHierarchicalClustering kws (createSimilarityMatrix h kws) (similarityThreshold opts) = Inr cs"
      "foldE (processCluster RX h opts key) (fg, pool) cs = Inr state'"
      by (auto simp add: processBucket_def split: sum.splits)
    from clustering_result [OF cs(1)] have "mset (concat cs) = mset kws" by blast
    with clusters_content [OF cs(2)] st b show ?thesis by simp
  qed
qed

lemma buckets_content:
  "foldE (processBucket RX h opts) state buckets = Inr state' \<Longrightarrow>
     content state' = content state + mset (concat (map snd buckets)) \<and>
     (sizesOk (fst state) \<longrightarrow> sizesOk (fst state'))"
proof (induction buckets arbitrary: state)
  case Nil
  then show ?case by simp
next
  case (Cons b bs)
  from Cons.prems obtain s1 where s1: "processBucket RX h opts state b = Inr s1"
    "foldE (processBucket RX h opts) s1 bs = Inr state'"
    by (auto split: sum.splits)
  from processBucket_content [OF s1(1)] Cons.IH [OF s1(2)] show ?case by simp
qed

lemma intent_buckets_mset: "mset (concat (map snd (groupBySearchIntent h kd))) = mset kd"
proof (induction kd)
  case Nil
  then show ?case by (simp add: groupBySearchIntent_def)
next
  case (Cons k kd)
  then show ?case by (cases "classifyIntent (query (h k))") (simp_all add: groupBySearchIntent_def)
qed

lemma collectGroups_content:
  assumes "collectGroups RX h kd opts = Inr state"
  shows "content state = mset kd \<and> sizesOk (fst state)"
  using buckets_content [OF assms [unfolded collectGroups_def]]
  by (simp add: content_def sizesOk_def intent_buckets_mset)

text \<open>
  Claim C1 at the failing input: on an empty or missing list of keywords the returned
  object has the two lists only, and none of the three counts.
\<close>

theorem groupKeywords_empty:
  "groupKeywords RX h None opts =
     Inr \<lparr>groups = [], ungrouped = [], totalGroups = None, totalKeywords = None,
          groupedKeywords = None\<rparr> \<and>
   groupKeywords RX h (Some []) opts =
     Inr \<lparr>groups = [], ungrouped = [], totalGroups = None, totalKeywords = None,
          groupedKeywords = None\<rparr>"
  by (simp add: groupKeywords_def)

end
